theory Spec2Isabelle
  imports Complex_Main
begin

section \<open>Support-ticket analysis pipeline: call orchestration and response recovery\<close>

text \<open>
  A shallow embedding of \<^verbatim>\<open>cache.py\<close>, \<^verbatim>\<open>client.py\<close>, \<^verbatim>\<open>models.py\<close>,
  \<^verbatim>\<open>prompts.py\<close> and \<^verbatim>\<open>orchestrator.py\<close>.

  Conventions. A Python \<^verbatim>\<open>str\<close> is a \<^typ>\<open>string\<close>; a character
  stands for the code point of the same number, so the texts of this development are those
  over the code points 0 to 255. A function that can raise returns \<open>error + 'a\<close>
  with \<open>Inl\<close> the exception. The exceptions are the subclasses of Python's
  \<^verbatim>\<open>Exception\<close>; task cancellation and interpreter exit are not modelled.
\<close>

subsection \<open>Exceptions\<close>

datatype error =
    TimeoutError
  | JSONDecodeError
  | ValidationError
  | TypeError
  | AttributeError
  | IndexError
  | OverflowError
  | ValueError
  | RecursionError
  | Unmodelled
  | ServiceError string

subsection \<open>Python string operations\<close>

text \<open>\<^verbatim>\<open>str.isspace\<close> on one character, for the code points below 256.\<close>

definition isspace :: "char \<Rightarrow> bool" where
  "isspace c = (of_char c \<in> set [9, 10, 11, 12, 13, 28, 29, 30, 31, 32, 133, 160 :: nat])"

definition lstrip :: "string \<Rightarrow> string" where
  "lstrip s = dropWhile isspace s"

definition rstrip :: "string \<Rightarrow> string" where
  "rstrip s = rev (dropWhile isspace (rev s))"

definition strip :: "string \<Rightarrow> string" where
  "strip s = lstrip (rstrip s)"

definition startswith :: "string \<Rightarrow> string \<Rightarrow> bool" where
  "startswith s p = (take (length p) s = p)"

text \<open>
  \<^verbatim>\<open>s.split(sep)\<close> for a separator of at least one character: the text is cut at
  each occurrence of \<open>sep\<close>, found from the left, the search resuming after the occurrence.
  \<open>acc\<close> holds the current part, reversed.
\<close>

fun split_from :: "string \<Rightarrow> string \<Rightarrow> string \<Rightarrow> string list" where
  "split_from sep acc [] = [rev acc]"
| "split_from sep acc (c # cs) =
     (if startswith (c # cs) sep
      then rev acc # split_from sep [] (drop (length sep - 1) cs)
      else split_from sep (c # acc) cs)"

definition split :: "string \<Rightarrow> string \<Rightarrow> string list" where
  "split s sep = split_from sep [] s"

text \<open>\<^verbatim>\<open>s.rfind(c)\<close> for one character: the last index of \<open>c\<close>, or \<open>-1\<close>.\<close>

fun rfind_from :: "char \<Rightarrow> int \<Rightarrow> int \<Rightarrow> string \<Rightarrow> int" where
  "rfind_from c i found [] = found"
| "rfind_from c i found (x # xs) = rfind_from c (i + 1) (if x = c then i else found) xs"

definition rfind :: "string \<Rightarrow> char \<Rightarrow> int" where
  "rfind s c = rfind_from c 0 (-1) s"

text \<open>\<^verbatim>\<open>sep in s\<close>: whether \<open>sep\<close> occurs in \<open>s\<close>.\<close>

fun contains :: "string \<Rightarrow> string \<Rightarrow> bool" where
  "contains [] sep = (sep = [])"
| "contains (c # cs) sep = (startswith (c # cs) sep \<or> contains cs sep)"

subsection \<open>Calendar dates\<close>

text \<open>
  A \<^verbatim>\<open>datetime.date\<close>: a valid day of the proleptic Gregorian calendar in the years
  1 to 9999.
\<close>

record date =
  year :: nat
  month :: nat
  day :: nat

definition is_leap :: "nat \<Rightarrow> bool" where
  "is_leap y = (y mod 4 = 0 \<and> (y mod 100 \<noteq> 0 \<or> y mod 400 = 0))"

definition days_in_month :: "nat \<Rightarrow> nat \<Rightarrow> nat" where
  "days_in_month y m =
     (if m = 2 then (if is_leap y then 29 else 28)
      else if m \<in> set [4, 6, 9, 11] then 30 else 31)"

definition valid_date :: "date \<Rightarrow> bool" where
  "valid_date d = (1 \<le> year d \<and> year d \<le> 9999 \<and> 1 \<le> month d \<and> month d \<le> 12 \<and>
     1 \<le> day d \<and> day d \<le> days_in_month (year d) (month d))"

text \<open>
  \<^verbatim>\<open>d - timedelta(days=1)\<close>: the day before, and \<^verbatim>\<open>OverflowError\<close> before the
  first day of year 1.
\<close>

definition minus_one_day :: "date \<Rightarrow> error + date" where
  "minus_one_day d =
     (if 1 < day d then Inr (d\<lparr>day := day d - 1\<rparr>)
      else if 1 < month d
        then Inr (d\<lparr>month := month d - 1, day := days_in_month (year d) (month d - 1)\<rparr>)
      else if 1 < year d then Inr \<lparr>year = year d - 1, month = 12, day = 31\<rparr>
      else Inl OverflowError)"

definition digit_char :: "nat \<Rightarrow> char" where
  "digit_char n = char_of (48 + n mod 10)"

text \<open>The decimal digits of a natural number, as \<^verbatim>\<open>str(n)\<close> writes them.\<close>

fun nat_digits :: "nat \<Rightarrow> string" where
  "nat_digits n = (if n < 10 then [digit_char n] else nat_digits (n div 10) @ [digit_char n])"

declare nat_digits.simps [simp del]

definition zero_pad :: "nat \<Rightarrow> string \<Rightarrow> string" where
  "zero_pad w s = replicate (w - length s) (CHR ''0'') @ s"

text \<open>\<^verbatim>\<open>date.isoformat()\<close>: \<^verbatim>\<open>YYYY-MM-DD\<close>.\<close>

definition isoformat :: "date \<Rightarrow> string" where
  "isoformat d = zero_pad 4 (nat_digits (year d)) @ ''-'' @ zero_pad 2 (nat_digits (month d))
     @ ''-'' @ zero_pad 2 (nat_digits (day d))"

text \<open>\<^verbatim>\<open>strftime("%Y-%m")\<close> and \<^verbatim>\<open>strftime("%d")\<close>, the year written with four digits.\<close>

definition strftime_Y_m :: "date \<Rightarrow> string" where
  "strftime_Y_m d = zero_pad 4 (nat_digits (year d)) @ ''-'' @ zero_pad 2 (nat_digits (month d))"

definition strftime_d :: "date \<Rightarrow> string" where
  "strftime_d d = zero_pad 2 (nat_digits (day d))"

subsection \<open>The result cache (\<^verbatim>\<open>cache.py\<close>)\<close>

text \<open>
  The cache directory is the map from the path of a file, relative to \<^verbatim>\<open>cache_dir\<close>
  and given by its components, to the file's text. A key is one path component.
  A loader is any function from the text to a record that may raise; \<^verbatim>\<open>get\<close>
  answers \<open>None\<close> for Python's \<^verbatim>\<open>None\<close>.
\<close>

type_synonym cache_dir = "string list \<rightharpoonup> string"

definition flat_path :: "string \<Rightarrow> string list" where
  "flat_path key = [key @ ''.json'']"

definition dated_path :: "string \<Rightarrow> date \<Rightarrow> string list" where
  "dated_path key target_date = [strftime_Y_m target_date, strftime_d target_date, key @ ''.json'']"

definition get :: "cache_dir \<Rightarrow> string \<Rightarrow> (string \<Rightarrow> error + 'a) \<Rightarrow> error + 'a option" where
  "get cache key loader =
     (case cache (flat_path key) of
        Some text \<Rightarrow> (case loader text of Inl e \<Rightarrow> Inl e | Inr v \<Rightarrow> Inr (Some v))
      | None \<Rightarrow> Inr None)"

definition save :: "cache_dir \<Rightarrow> string \<Rightarrow> 'a \<Rightarrow> ('a \<Rightarrow> string) \<Rightarrow> cache_dir" where
  "save cache key v serializer = cache(flat_path key \<mapsto> serializer v)"

definition exists :: "cache_dir \<Rightarrow> string \<Rightarrow> bool" where
  "exists cache key = (cache (flat_path key) \<noteq> None)"

definition get_dated ::
  "cache_dir \<Rightarrow> string \<Rightarrow> date \<Rightarrow> (string \<Rightarrow> error + 'a) \<Rightarrow> error + 'a option" where
  "get_dated cache key target_date loader =
     (case cache (dated_path key target_date) of
        Some text \<Rightarrow> (case loader text of Inl e \<Rightarrow> Inl e | Inr v \<Rightarrow> Inr (Some v))
      | None \<Rightarrow> Inr None)"

definition save_dated :: "cache_dir \<Rightarrow> string \<Rightarrow> date \<Rightarrow> 'a \<Rightarrow> ('a \<Rightarrow> string) \<Rightarrow> cache_dir" where
  "save_dated cache key target_date v serializer =
     cache(dated_path key target_date \<mapsto> serializer v)"

definition exists_dated :: "cache_dir \<Rightarrow> string \<Rightarrow> date \<Rightarrow> bool" where
  "exists_dated cache key target_date = (cache (dated_path key target_date) \<noteq> None)"

subsection \<open>JSON values and Python's \<^verbatim>\<open>json\<close> module\<close>

text \<open>
  The values \<^verbatim>\<open>json.loads\<close> returns: \<^verbatim>\<open>None\<close>, \<^verbatim>\<open>bool\<close>, \<^verbatim>\<open>int\<close>,
  \<^verbatim>\<open>str\<close>, \<^verbatim>\<open>list\<close> and \<^verbatim>\<open>dict\<close>. A \<^verbatim>\<open>dict\<close> is the list of its items in
  insertion order, its keys distinct. Python's \<^verbatim>\<open>float\<close> is left out: where the
  library would build one, and where an escape denotes a code point above 255, the model
  answers \<open>Inl Unmodelled\<close>.
\<close>

datatype json =
    JNull
  | JBool bool
  | JInt int
  | JString string
  | JArray "json list"
  | JObject "(string \<times> json) list"

text \<open>\<^verbatim>\<open>d[k] = v\<close>: an existing key keeps its place, a new one goes last.\<close>

fun dict_set :: "(string \<times> 'v) list \<Rightarrow> string \<Rightarrow> 'v \<Rightarrow> (string \<times> 'v) list" where
  "dict_set [] k v = [(k, v)]"
| "dict_set ((k', v') # kvs) k v =
     (if k' = k then (k', v) # kvs else (k', v') # dict_set kvs k v)"

text \<open>\<^verbatim>\<open>dict(pairs)\<close>.\<close>

definition dict :: "(string \<times> 'v) list \<Rightarrow> (string \<times> 'v) list" where
  "dict pairs = foldl (\<lambda>d (k, v). dict_set d k v) [] pairs"

definition dquote :: char where
  "dquote = CHR 0x22"

definition backslash :: char where
  "backslash = CHR 0x5C"

definition hex_char :: "nat \<Rightarrow> char" where
  "hex_char n = ''0123456789abcdef'' ! (n mod 16)"

definition hex_val :: "char \<Rightarrow> nat option" where
  "hex_val c =
     (let n = of_char c in
      if 48 \<le> n \<and> n \<le> 57 then Some (n - 48)
      else if 97 \<le> n \<and> n \<le> 102 then Some (n - 87)
      else if 65 \<le> n \<and> n \<le> 70 then Some (n - 55)
      else None)"

text \<open>
  \<^verbatim>\<open>json.dumps\<close> with its defaults (\<^verbatim>\<open>ensure_ascii=True\<close>, separators
  \<^verbatim>\<open>", "\<close> and \<^verbatim>\<open>": "\<close>): the canonical encoding.
\<close>

definition escape_char :: "char \<Rightarrow> string" where
  "escape_char c =
     (if c = dquote then [backslash, dquote]
      else if c = backslash then [backslash, backslash]
      else if c = CHR 0x0A then [backslash, CHR ''n'']
      else if c = CHR 0x0D then [backslash, CHR ''r'']
      else if c = CHR 0x09 then [backslash, CHR ''t'']
      else if c = CHR 0x08 then [backslash, CHR ''b'']
      else if c = CHR 0x0C then [backslash, CHR ''f'']
      else if of_char c < (32 :: nat) \<or> (126 :: nat) < of_char c
        then [backslash, CHR ''u'', CHR ''0'', CHR ''0'',
              hex_char (of_char c div 16), hex_char (of_char c mod 16)]
      else [c])"

definition dumps_str :: "string \<Rightarrow> string" where
  "dumps_str s = dquote # concat (map escape_char s) @ [dquote]"

definition dumps_int :: "int \<Rightarrow> string" where
  "dumps_int i = (if i < 0 then CHR ''-'' # nat_digits (nat (- i)) else nat_digits (nat i))"

fun json_dumps :: "json \<Rightarrow> string"
  and dumps_items :: "json list \<Rightarrow> string"
  and dumps_members :: "(string \<times> json) list \<Rightarrow> string" where
  "json_dumps JNull = ''null''"
| "json_dumps (JBool b) = (if b then ''true'' else ''false'')"
| "json_dumps (JInt i) = dumps_int i"
| "json_dumps (JString s) = dumps_str s"
| "json_dumps (JArray []) = ''[]''"
| "json_dumps (JArray (x # xs)) = ''['' @ json_dumps x @ dumps_items xs @ '']''"
| "json_dumps (JObject []) = ''{}''"
| "json_dumps (JObject ((k, v) # kvs)) =
     ''{'' @ dumps_str k @ '': '' @ json_dumps v @ dumps_members kvs @ ''}''"
| "dumps_items [] = []"
| "dumps_items (x # xs) = '', '' @ json_dumps x @ dumps_items xs"
| "dumps_members [] = []"
| "dumps_members ((k, v) # kvs) = '', '' @ dumps_str k @ '': '' @ json_dumps v @ dumps_members kvs"

text \<open>
  \<^verbatim>\<open>json.loads\<close>, after the library's decoder: \<^verbatim>\<open>WHITESPACE\<close>, \<^verbatim>\<open>scanstring\<close>,
  \<^verbatim>\<open>NUMBER_RE\<close>, \<^verbatim>\<open>scan_once\<close> with the loops of \<^verbatim>\<open>JSONArray\<close> and
  \<^verbatim>\<open>JSONObject\<close>, and \<^verbatim>\<open>decode\<close>. Each function takes the text from the current
  position on and returns the value with the text that is left.
\<close>

definition skip_ws :: "string \<Rightarrow> string" where
  "skip_ws s = dropWhile (\<lambda>c. c \<in> set [CHR '' '', CHR 0x09, CHR 0x0A, CHR 0x0D]) s"

definition unescape :: "char \<Rightarrow> char option" where
  "unescape e =
     (if e = dquote then Some dquote
      else if e = backslash then Some backslash
      else if e = CHR ''/'' then Some (CHR ''/'')
      else if e = CHR ''b'' then Some (CHR 0x08)
      else if e = CHR ''f'' then Some (CHR 0x0C)
      else if e = CHR ''n'' then Some (CHR 0x0A)
      else if e = CHR ''r'' then Some (CHR 0x0D)
      else if e = CHR ''t'' then Some (CHR 0x09)
      else None)"

text \<open>The four hexadecimal digits of a \<^verbatim>\<open>\uXXXX\<close> escape.\<close>

definition decode_uXXXX :: "string \<Rightarrow> error + char" where
  "decode_uXXXX s =
     (case map hex_val (take 4 s) of
        [Some a, Some b, Some c, Some d] \<Rightarrow>
          (if a = 0 \<and> b = 0 then Inr (char_of (16 * c + d)) else Inl Unmodelled)
      | _ \<Rightarrow> Inl JSONDecodeError)"

text \<open>The text after the opening quote: the decoded string and the text after the closing quote.\<close>

fun scanstring :: "string \<Rightarrow> error + (string \<times> string)" where
  "scanstring [] = Inl JSONDecodeError"
| "scanstring (c # cs) =
     (if c = dquote then Inr ([], cs)
      else if c = backslash then
        (case cs of
           [] \<Rightarrow> Inl JSONDecodeError
         | e # cs' \<Rightarrow>
            (if e = CHR ''u'' then
               (case decode_uXXXX cs' of
                  Inl err \<Rightarrow> Inl err
                | Inr ch \<Rightarrow>
                   (case scanstring (drop 4 cs') of
                      Inl err \<Rightarrow> Inl err
                    | Inr (str, rest) \<Rightarrow> Inr (ch # str, rest)))
             else
               (case unescape e of
                  None \<Rightarrow> Inl JSONDecodeError
                | Some ch \<Rightarrow>
                   (case scanstring cs' of
                      Inl err \<Rightarrow> Inl err
                    | Inr (str, rest) \<Rightarrow> Inr (ch # str, rest)))))
      else if of_char c < (32 :: nat) then Inl JSONDecodeError
      else
        (case scanstring cs of
           Inl err \<Rightarrow> Inl err
         | Inr (str, rest) \<Rightarrow> Inr (c # str, rest)))"

definition isdigit :: "char \<Rightarrow> bool" where
  "isdigit c = (48 \<le> (of_char c :: nat) \<and> (of_char c :: nat) \<le> 57)"

definition digits_val :: "string \<Rightarrow> nat" where
  "digits_val ds = foldl (\<lambda>a d. 10 * a + (of_char d - 48)) 0 ds"

text \<open>
  Whether the text goes on with a fraction \<^verbatim>\<open>\.[0-9]+\<close> or an exponent
  \<^verbatim>\<open>[eE][-+]?[0-9]+\<close>, which makes the number a \<^verbatim>\<open>float\<close>.
\<close>

definition float_tail :: "string \<Rightarrow> bool" where
  "float_tail s =
     (case s of
        [] \<Rightarrow> False
      | c # cs \<Rightarrow>
         (if c = CHR ''.'' then (case cs of [] \<Rightarrow> False | d # _ \<Rightarrow> isdigit d)
          else if c = CHR ''e'' \<or> c = CHR ''E'' then
            (case cs of
               [] \<Rightarrow> False
             | d # ds \<Rightarrow>
                (if d = CHR ''+'' \<or> d = CHR ''-''
                 then (case ds of [] \<Rightarrow> False | d' # _ \<Rightarrow> isdigit d')
                 else isdigit d))
          else False))"

text \<open>
  \<^verbatim>\<open>NUMBER_RE\<close>, \<^verbatim>\<open>(-?(?:0|[1-9][0-9]*))(\.[0-9]+)?([eE][-+]?[0-9]+)?\<close>:
  \<open>None\<close> when the text does not start with a number.
\<close>

definition match_number :: "string \<Rightarrow> (error + (json \<times> string)) option" where
  "match_number s =
     (let neg = (s \<noteq> [] \<and> hd s = CHR ''-'');
          body = (if neg then tl s else s)
      in case body of
           [] \<Rightarrow> None
         | c # cs \<Rightarrow>
            (if \<not> isdigit c then None
             else
               (let ds = (if c = CHR ''0'' then [c] else c # takeWhile isdigit cs);
                    rest = drop (length ds) body
                in if float_tail rest then Some (Inl Unmodelled)
                   else Some (Inr (JInt (if neg then - int (digits_val ds) else int (digits_val ds)),
                                   rest)))))"

fun scan_once :: "nat \<Rightarrow> string \<Rightarrow> error + (json \<times> string)"
  and array_loop :: "nat \<Rightarrow> json list \<Rightarrow> string \<Rightarrow> error + (json \<times> string)"
  and object_loop :: "nat \<Rightarrow> (string \<times> json) list \<Rightarrow> string \<Rightarrow> error + (json \<times> string)" where
  "scan_once 0 s = Inl RecursionError"
| "scan_once (Suc n) s =
     (case s of
        [] \<Rightarrow> Inl JSONDecodeError
      | c # cs \<Rightarrow>
         (if c = dquote then
            (case scanstring cs of
               Inl err \<Rightarrow> Inl err
             | Inr (str, rest) \<Rightarrow> Inr (JString str, rest))
          else if c = CHR ''{'' then
            (case skip_ws cs of
               [] \<Rightarrow> Inl JSONDecodeError
             | c' # r \<Rightarrow>
                (if c' = CHR ''}'' then Inr (JObject [], r)
                 else if c' = dquote then object_loop n [] r
                 else Inl JSONDecodeError))
          else if c = CHR ''['' then
            (case skip_ws cs of
               [] \<Rightarrow> Inl JSONDecodeError
             | c' # r \<Rightarrow>
                (if c' = CHR '']'' then Inr (JArray [], r)
                 else array_loop n [] (c' # r)))
          else if take 4 s = ''null'' then Inr (JNull, drop 4 s)
          else if take 4 s = ''true'' then Inr (JBool True, drop 4 s)
          else if take 5 s = ''false'' then Inr (JBool False, drop 5 s)
          else
            (case match_number s of
               Some r \<Rightarrow> r
             | None \<Rightarrow>
                (if take 3 s = ''NaN'' \<or> take 8 s = ''Infinity'' \<or> take 9 s = ''-Infinity''
                 then Inl Unmodelled
                 else Inl JSONDecodeError))))"
| "array_loop 0 vals s = Inl RecursionError"
| "array_loop (Suc n) vals s =
     (case scan_once n s of
        Inl err \<Rightarrow> Inl err
      | Inr (v, s') \<Rightarrow>
         (case skip_ws s' of
            [] \<Rightarrow> Inl JSONDecodeError
          | c # r \<Rightarrow>
             (if c = CHR '']'' then Inr (JArray (vals @ [v]), r)
              else if c = CHR '','' then array_loop n (vals @ [v]) (skip_ws r)
              else Inl JSONDecodeError)))"
| "object_loop 0 pairs s = Inl RecursionError"
| "object_loop (Suc n) pairs s =
     (case scanstring s of
        Inl err \<Rightarrow> Inl err
      | Inr (key, s1) \<Rightarrow>
         (case skip_ws s1 of
            [] \<Rightarrow> Inl JSONDecodeError
          | c # s2 \<Rightarrow>
             (if c \<noteq> CHR '':'' then Inl JSONDecodeError
              else
                (case scan_once n (skip_ws s2) of
                   Inl err \<Rightarrow> Inl err
                 | Inr (v, s3) \<Rightarrow>
                    (case skip_ws s3 of
                       [] \<Rightarrow> Inl JSONDecodeError
                     | c' # r \<Rightarrow>
                        (if c' = CHR ''}'' then Inr (JObject (dict (pairs @ [(key, v)])), r)
                         else if c' = CHR '','' then
                           (case skip_ws r of
                              [] \<Rightarrow> Inl JSONDecodeError
                            | q # r' \<Rightarrow>
                               (if q = dquote then object_loop n (pairs @ [(key, v)]) r'
                                else Inl JSONDecodeError))
                         else Inl JSONDecodeError))))))"

text \<open>
  \<^verbatim>\<open>JSONDecoder.decode\<close>: one value, white space around it, nothing else. Every call
  of the three functions above uses up a character within two calls, so twice the length
  of the text bounds their nesting.
\<close>

definition json_loads :: "string \<Rightarrow> error + json" where
  "json_loads s =
     (case scan_once (2 * length s + 1) (skip_ws s) of
        Inl err \<Rightarrow> Inl err
      | Inr (v, rest) \<Rightarrow> (if skip_ws rest = [] then Inr v else Inl JSONDecodeError))"

subsection \<open>Response recovery (\<^verbatim>\<open>client.py\<close>, \<^verbatim>\<open>parse_json\<close>)\<close>

text \<open>
  \<^verbatim>\<open>parse_json\<close> calls the library's \<^verbatim>\<open>json.loads\<close>, here the parameter
  \<open>loads\<close>; \<^const>\<open>json_loads\<close> is the instance used on concrete texts.
  \<^verbatim>\<open>except json.JSONDecodeError: pass\<close> goes on after that exception only and lets
  every other one through.
\<close>

definition fence :: string where
  "fence = ''```''"

text \<open>Lines 69 to 78: the working text.\<close>

definition working_text :: "string \<Rightarrow> string" where
  "working_text content0 =
     (let content = strip content0 in
      if startswith content fence then
        (let parts = split content fence in
         if 2 \<le> length parts then
           (let content1 = parts ! 1;
                content2 = (if startswith content1 ''json'' \<or> startswith content1 ''JSON''
                            then drop 4 content1 else content1)
            in strip content2)
         else content)
      else content)"

text \<open>
  Lines 98 to 132: the scan over \<^verbatim>\<open>enumerate(content)\<close>, at index \<open>i\<close> with the
  characters from \<open>i\<close> on still to read. It returns the first prefix that ends where both
  counters are back at zero and that \<open>loads\<close> accepts; reaching the end is line 134.
\<close>

fun scan_loop ::
  "(string \<Rightarrow> error + 'j) \<Rightarrow> string \<Rightarrow> nat \<Rightarrow> int \<Rightarrow> int \<Rightarrow> bool \<Rightarrow> bool \<Rightarrow> string
   \<Rightarrow> error + 'j" where
  "scan_loop loads content i open_braces open_brackets in_string escape_next [] =
     Inl JSONDecodeError"
| "scan_loop loads content i open_braces open_brackets in_string escape_next (char # rest) =
     (if escape_next then
        scan_loop loads content (i + 1) open_braces open_brackets in_string False rest
      else if char = backslash \<and> in_string then
        scan_loop loads content (i + 1) open_braces open_brackets in_string True rest
      else if char = dquote \<and> \<not> escape_next then
        scan_loop loads content (i + 1) open_braces open_brackets (\<not> in_string) escape_next rest
      else if \<not> in_string then
        (let open_braces' =
               (if char = CHR ''{'' then open_braces + 1
                else if char = CHR ''}'' then open_braces - 1 else open_braces);
             open_brackets' =
               (if char = CHR ''{'' \<or> char = CHR ''}'' then open_brackets
                else if char = CHR ''['' then open_brackets + 1
                else if char = CHR '']'' then open_brackets - 1 else open_brackets)
         in if open_braces' = 0 \<and> open_brackets' = 0 \<and> (char = CHR ''}'' \<or> char = CHR '']'')
            then
              (case loads (take (i + 1) content) of
                 Inr v \<Rightarrow> Inr v
               | Inl JSONDecodeError \<Rightarrow>
                   scan_loop loads content (i + 1) open_braces' open_brackets' in_string
                     escape_next rest
               | Inl err \<Rightarrow> Inl err)
            else scan_loop loads content (i + 1) open_braces' open_brackets' in_string
                   escape_next rest)
      else scan_loop loads content (i + 1) open_braces open_brackets in_string escape_next rest)"

text \<open>Lines 86 to 138: what follows once the working text itself did not parse.\<close>

definition recover_truncated :: "(string \<Rightarrow> error + 'j) \<Rightarrow> string \<Rightarrow> error + 'j" where
  "recover_truncated loads content =
     (let last_brace = rfind content (CHR ''}'');
          last_bracket = rfind content (CHR '']'');
          last_close = max last_brace last_bracket;
          scan = scan_loop loads content 0 0 0 False False content
      in if 0 < last_close then
           (case loads (take (nat (last_close + 1)) content) of
              Inr v \<Rightarrow> Inr v
            | Inl JSONDecodeError \<Rightarrow> scan
            | Inl err \<Rightarrow> Inl err)
         else scan)"

text \<open>Lines 80 to 138, on the working text.\<close>

definition recover :: "(string \<Rightarrow> error + 'j) \<Rightarrow> string \<Rightarrow> error + 'j" where
  "recover loads content =
     (case loads content of
        Inr v \<Rightarrow> Inr v
      | Inl JSONDecodeError \<Rightarrow> recover_truncated loads content
      | Inl err \<Rightarrow> Inl err)"

definition parse_json :: "(string \<Rightarrow> error + 'j) \<Rightarrow> string \<Rightarrow> error + 'j" where
  "parse_json loads content = recover loads (working_text content)"

subsection \<open>Python values: truth, types, \<^verbatim>\<open>str()\<close>\<close>

text \<open>
  What \<^verbatim>\<open>or\<close> and \<^verbatim>\<open>if\<close> test; \<^verbatim>\<open>isinstance\<close> against \<^verbatim>\<open>str\<close>,
  \<^verbatim>\<open>dict\<close> and \<^verbatim>\<open>list\<close>; \<^verbatim>\<open>d.get(k)\<close> with \<^verbatim>\<open>None\<close> for a missing
  key; \<^verbatim>\<open>a or b\<close>.
\<close>

fun truthy :: "json \<Rightarrow> bool" where
  "truthy JNull = False"
| "truthy (JBool b) = b"
| "truthy (JInt i) = (i \<noteq> 0)"
| "truthy (JString s) = (s \<noteq> [])"
| "truthy (JArray xs) = (xs \<noteq> [])"
| "truthy (JObject kvs) = (kvs \<noteq> [])"

fun is_str :: "json \<Rightarrow> bool" where
  "is_str (JString s) = True"
| "is_str v = False"

fun is_dict :: "json \<Rightarrow> bool" where
  "is_dict (JObject kvs) = True"
| "is_dict v = False"

fun is_list :: "json \<Rightarrow> bool" where
  "is_list (JArray xs) = True"
| "is_list v = False"

fun dict_get :: "json \<Rightarrow> string \<Rightarrow> json" where
  "dict_get (JObject kvs) k = (case map_of kvs k of Some v \<Rightarrow> v | None \<Rightarrow> JNull)"
| "dict_get v k = JNull"

definition py_or :: "json \<Rightarrow> json \<Rightarrow> json" where
  "py_or a b = (if truthy a then a else b)"

text \<open>
  \<^verbatim>\<open>str(x)\<close>: a string is itself; for every other value the text is Python's
  \<^verbatim>\<open>repr\<close>, the parameter \<open>repr\<close>.
\<close>

fun py_str :: "(json \<Rightarrow> string) \<Rightarrow> json \<Rightarrow> string" where
  "py_str repr (JString s) = s"
| "py_str repr v = repr v"

text \<open>\<^verbatim>\<open>sep.join(parts)\<close>.\<close>

fun join :: "string \<Rightarrow> string list \<Rightarrow> string" where
  "join sep [] = []"
| "join sep [x] = x"
| "join sep (x # y # ys) = x @ sep @ join sep (y # ys)"

subsection \<open>The records of \<^verbatim>\<open>models.py\<close> and their construction\<close>

record TicketAnalysis =
  ticket_id :: string
  category :: string
  product_area :: string
  sentiment :: string
  priority :: string
  themes :: "string list"
  summary :: string

record DailySummary =
  date :: date
  ticket_count :: nat
  key_themes :: "string list"
  trend_analysis :: string
  critical_issues :: "string list"

record HealthSnapshot =
  overall_health :: string
  ticket_volume_trend :: string
  complaint_rate_trend :: string
  top_3_drivers :: "string list"

record KeyInsight =
  insight :: string
  severity :: string
  evidence :: string
  customer_impact :: string

record RecommendedAction =
  action :: string
  priority :: string
  estimated_impact :: string
  suggested_owner :: string
  success_metrics :: string

record CustomerVoice =
  quotes :: "string list"

record WeekOverWeekComparison =
  improved :: "string list"
  deteriorated :: "string list"
  stayed_same :: "string list"

record Report =
  period :: string
  executive_summary :: string
  health_snapshot :: HealthSnapshot
  key_insights :: "KeyInsight list"
  recommended_actions :: "RecommendedAction list"
  customer_voice :: CustomerVoice
  week_over_week_comparison :: WeekOverWeekComparison

text \<open>
  Validation of one field of a model built from keyword arguments: a field declared
  \<^verbatim>\<open>str\<close> takes a string and nothing else, \<^verbatim>\<open>list[str]\<close> a list of strings, a
  nested model an object that validates; a field that is missing or of another shape is a
  \<^verbatim>\<open>ValidationError\<close>; keys that name no field are ignored.
\<close>

definition field_str :: "(string \<times> json) list \<Rightarrow> string \<Rightarrow> string option" where
  "field_str kvs k = (case map_of kvs k of Some (JString s) \<Rightarrow> Some s | _ \<Rightarrow> None)"

fun all_strs :: "json list \<Rightarrow> string list option" where
  "all_strs [] = Some []"
| "all_strs (JString s # vs) = map_option ((#) s) (all_strs vs)"
| "all_strs (v # vs) = None"

definition field_strs :: "(string \<times> json) list \<Rightarrow> string \<Rightarrow> string list option" where
  "field_strs kvs k = (case map_of kvs k of Some (JArray xs) \<Rightarrow> all_strs xs | _ \<Rightarrow> None)"

fun all_some :: "'a option list \<Rightarrow> 'a list option" where
  "all_some [] = Some []"
| "all_some (None # xs) = None"
| "all_some (Some x # xs) = map_option ((#) x) (all_some xs)"

definition validate_HealthSnapshot :: "json \<Rightarrow> HealthSnapshot option" where
  "validate_HealthSnapshot v =
     (case v of
        JObject kvs \<Rightarrow>
          (case (field_str kvs ''overall_health'', field_str kvs ''ticket_volume_trend'',
                 field_str kvs ''complaint_rate_trend'', field_strs kvs ''top_3_drivers'') of
             (Some a, Some b, Some c, Some d) \<Rightarrow>
               Some \<lparr>overall_health = a, ticket_volume_trend = b, complaint_rate_trend = c,
                     top_3_drivers = d\<rparr>
           | _ \<Rightarrow> None)
      | _ \<Rightarrow> None)"

definition validate_KeyInsight :: "json \<Rightarrow> KeyInsight option" where
  "validate_KeyInsight v =
     (case v of
        JObject kvs \<Rightarrow>
          (case (field_str kvs ''insight'', field_str kvs ''severity'',
                 field_str kvs ''evidence'', field_str kvs ''customer_impact'') of
             (Some a, Some b, Some c, Some d) \<Rightarrow>
               Some \<lparr>insight = a, severity = b, evidence = c, customer_impact = d\<rparr>
           | _ \<Rightarrow> None)
      | _ \<Rightarrow> None)"

definition validate_RecommendedAction :: "json \<Rightarrow> RecommendedAction option" where
  "validate_RecommendedAction v =
     (case v of
        JObject kvs \<Rightarrow>
          (case (field_str kvs ''action'', field_str kvs ''priority'',
                 field_str kvs ''estimated_impact'', field_str kvs ''suggested_owner'',
                 field_str kvs ''success_metrics'') of
             (Some a, Some b, Some c, Some d, Some e) \<Rightarrow>
               Some \<lparr>action = a, priority = b, estimated_impact = c, suggested_owner = d,
                     success_metrics = e\<rparr>
           | _ \<Rightarrow> None)
      | _ \<Rightarrow> None)"

definition validate_CustomerVoice :: "json \<Rightarrow> CustomerVoice option" where
  "validate_CustomerVoice v =
     (case v of
        JObject kvs \<Rightarrow> map_option (\<lambda>q. \<lparr>quotes = q\<rparr>) (field_strs kvs ''quotes'')
      | _ \<Rightarrow> None)"

definition validate_WeekOverWeekComparison :: "json \<Rightarrow> WeekOverWeekComparison option" where
  "validate_WeekOverWeekComparison v =
     (case v of
        JObject kvs \<Rightarrow>
          (case (field_strs kvs ''improved'', field_strs kvs ''deteriorated'',
                 field_strs kvs ''stayed_same'') of
             (Some a, Some b, Some c) \<Rightarrow>
               Some \<lparr>improved = a, deteriorated = b, stayed_same = c\<rparr>
           | _ \<Rightarrow> None)
      | _ \<Rightarrow> None)"

definition field_models :: "(json \<Rightarrow> 'a option) \<Rightarrow> (string \<times> json) list \<Rightarrow> string \<Rightarrow> 'a list option" where
  "field_models validate kvs k =
     (case map_of kvs k of Some (JArray xs) \<Rightarrow> all_some (map validate xs) | _ \<Rightarrow> None)"

definition field_model :: "(json \<Rightarrow> 'a option) \<Rightarrow> (string \<times> json) list \<Rightarrow> string \<Rightarrow> 'a option" where
  "field_model validate kvs k = (case map_of kvs k of Some v \<Rightarrow> validate v | None \<Rightarrow> None)"

text \<open>
  \<^verbatim>\<open>TicketAnalysis(ticket_id=ticket_id, **data)\<close>: \<^verbatim>\<open>**data\<close> needs a mapping, a
  key of \<open>data\<close> that repeats the explicit keyword is a \<^verbatim>\<open>TypeError\<close>, and then
  the fields are validated.
\<close>

definition new_TicketAnalysis :: "string \<Rightarrow> json \<Rightarrow> error + TicketAnalysis" where
  "new_TicketAnalysis tid data =
     (case data of
        JObject kvs \<Rightarrow>
          (if ''ticket_id'' \<in> fst ` set kvs then Inl TypeError
           else
             (case (field_str kvs ''category'', field_str kvs ''product_area'',
                    field_str kvs ''sentiment'', field_str kvs ''priority'',
                    field_strs kvs ''themes'', field_str kvs ''summary'') of
                (Some a, Some b, Some c, Some d, Some e, Some f) \<Rightarrow>
                  Inr \<lparr>ticket_id = tid, category = a, product_area = b, sentiment = c,
                       priority = d, themes = e, summary = f\<rparr>
              | _ \<Rightarrow> Inl ValidationError))
      | _ \<Rightarrow> Inl TypeError)"

text \<open>\<^verbatim>\<open>DailySummary(date=target_date, ticket_count=len(analyses), **data)\<close>.\<close>

definition new_DailySummary :: "date \<Rightarrow> nat \<Rightarrow> json \<Rightarrow> error + DailySummary" where
  "new_DailySummary target_date n data =
     (case data of
        JObject kvs \<Rightarrow>
          (if ''date'' \<in> fst ` set kvs \<or> ''ticket_count'' \<in> fst ` set kvs then Inl TypeError
           else
             (case (field_strs kvs ''key_themes'', field_str kvs ''trend_analysis'',
                    field_strs kvs ''critical_issues'') of
                (Some a, Some b, Some c) \<Rightarrow>
                  Inr \<lparr>date = target_date, ticket_count = n, key_themes = a,
                       trend_analysis = b, critical_issues = c\<rparr>
              | _ \<Rightarrow> Inl ValidationError))
      | _ \<Rightarrow> Inl TypeError)"

text \<open>\<^verbatim>\<open>Report(period=..., **data)\<close>.\<close>

definition new_Report :: "string \<Rightarrow> json \<Rightarrow> error + Report" where
  "new_Report p data =
     (case data of
        JObject kvs \<Rightarrow>
          (if ''period'' \<in> fst ` set kvs then Inl TypeError
           else
             (case (field_str kvs ''executive_summary'',
                    field_model validate_HealthSnapshot kvs ''health_snapshot'',
                    field_models validate_KeyInsight kvs ''key_insights'',
                    field_models validate_RecommendedAction kvs ''recommended_actions'',
                    field_model validate_CustomerVoice kvs ''customer_voice'',
                    field_model validate_WeekOverWeekComparison kvs ''week_over_week_comparison'') of
                (Some a, Some b, Some c, Some d, Some e, Some f) \<Rightarrow>
                  Inr \<lparr>period = p, executive_summary = a, health_snapshot = b, key_insights = c,
                       recommended_actions = d, customer_voice = e,
                       week_over_week_comparison = f\<rparr>
              | _ \<Rightarrow> Inl ValidationError))
      | _ \<Rightarrow> Inl TypeError)"

subsection \<open>Normalization (\<^verbatim>\<open>orchestrator.py\<close>, the two \<^verbatim>\<open>_normalize\<close>)\<close>

text \<open>
  \<^verbatim>\<open>if k in d: d[k] = f(d[k])\<close> on a \<^verbatim>\<open>dict\<close>. A branch of the source that
  leaves \<^verbatim>\<open>d[k]\<close> alone is an \<open>f\<close> that returns its argument.
\<close>

definition update_present :: "string \<Rightarrow> (json \<Rightarrow> json) \<Rightarrow> (string \<times> json) list \<Rightarrow> (string \<times> json) list" where
  "update_present k f kvs = (case map_of kvs k of None \<Rightarrow> kvs | Some v \<Rightarrow> dict_set kvs k (f v))"

text \<open>\<^verbatim>\<open>x.get(k1) or x.get(k2) or ... or str(x)\<close>.\<close>

definition first_truthy :: "(json \<Rightarrow> string) \<Rightarrow> string list \<Rightarrow> json \<Rightarrow> json" where
  "first_truthy repr subkeys x = foldr (\<lambda>k rest. py_or (dict_get x k) rest) subkeys (JString (py_str repr x))"

text \<open>A field that should be a string: lines 184 to 190 and 264 to 270.\<close>

definition coerce_text :: "(json \<Rightarrow> string) \<Rightarrow> string list \<Rightarrow> json \<Rightarrow> json" where
  "coerce_text repr subkeys v =
     (if is_dict v then first_truthy repr subkeys v
      else if \<not> is_str v then JString (py_str repr v)
      else v)"

text \<open>
  An element of a list that should hold strings:
  \<^verbatim>\<open>x.get(k) or str(x) if isinstance(x, dict) else str(x)\<close>.
\<close>

definition item_text :: "(json \<Rightarrow> string) \<Rightarrow> string list \<Rightarrow> json \<Rightarrow> json" where
  "item_text repr subkeys x =
     (if is_dict x then first_truthy repr subkeys x else JString (py_str repr x))"

definition items_text :: "(json \<Rightarrow> string) \<Rightarrow> string list \<Rightarrow> json \<Rightarrow> json" where
  "items_text repr subkeys v =
     (case v of JArray xs \<Rightarrow> JArray (map (item_text repr subkeys) xs) | _ \<Rightarrow> v)"

text \<open>
  What \<^verbatim>\<open>data.copy()\<close> and the tests \<^verbatim>\<open>key in normalized\<close> do to a parsed
  value that is no \<^verbatim>\<open>dict\<close>: a list has \<^verbatim>\<open>copy\<close>, its \<^verbatim>\<open>in\<close> looks for an
  element, and indexing it with a string is a \<^verbatim>\<open>TypeError\<close>; the other values
  have no \<^verbatim>\<open>copy\<close>.
\<close>

definition normalize_non_dict :: "string list \<Rightarrow> json \<Rightarrow> error + json" where
  "normalize_non_dict keys data =
     (case data of
        JArray xs \<Rightarrow> (if \<exists>k\<in>set keys. JString k \<in> set xs then Inl TypeError else Inr data)
      | _ \<Rightarrow> Inl AttributeError)"

text \<open>\<^verbatim>\<open>Summarizer._normalize\<close>, lines 177 to 215.\<close>

definition Summarizer_normalize :: "(json \<Rightarrow> string) \<Rightarrow> json \<Rightarrow> error + json" where
  "Summarizer_normalize repr data =
     (case data of
        JObject kvs \<Rightarrow>
          Inr (JObject
            (update_present ''key_themes'' (items_text repr [''theme''])
              (update_present ''critical_issues'' (items_text repr [''issue'', ''text'', ''description''])
                (update_present ''trend_analysis'' (coerce_text repr [''note'', ''text'', ''analysis''])
                  kvs))))
      | _ \<Rightarrow> normalize_non_dict [''trend_analysis'', ''critical_issues'', ''key_themes''] data)"

text \<open>Lines 275 to 284, on a \<^verbatim>\<open>health_snapshot\<close> that is a \<^verbatim>\<open>dict\<close>.\<close>

definition to_text :: "(json \<Rightarrow> string) \<Rightarrow> json \<Rightarrow> json" where
  "to_text repr v = (if is_str v then v else JString (py_str repr v))"

definition normalize_health_snapshot :: "(json \<Rightarrow> string) \<Rightarrow> json \<Rightarrow> json" where
  "normalize_health_snapshot repr hs =
     (case hs of
        JObject kvs \<Rightarrow>
          JObject
            (update_present ''top_3_drivers'' (items_text repr [''driver''])
              (update_present ''complaint_rate_trend'' (to_text repr)
                (update_present ''ticket_volume_trend'' (to_text repr)
                  (update_present ''overall_health'' (to_text repr) kvs))))
      | _ \<Rightarrow> hs)"

text \<open>
  Lines 293 to 299 and 323 to 325: \<^verbatim>\<open>x.get(k1) or x.get(k2) or ""\<close>, then a list or
  a \<^verbatim>\<open>dict\<close> made text.
\<close>

definition text_or_empty :: "(json \<Rightarrow> string) \<Rightarrow> json \<Rightarrow> json" where
  "text_or_empty repr v = (if is_list v \<or> is_dict v then JString (py_str repr v) else v)"

text \<open>Lines 291 to 313: one element of \<^verbatim>\<open>key_insights\<close>.\<close>

definition normalize_insight :: "(json \<Rightarrow> string) \<Rightarrow> json \<Rightarrow> json" where
  "normalize_insight repr an_insight =
     (if is_dict an_insight then
        JObject
          [(''insight'', py_or (dict_get an_insight ''insight'') (JString (py_str repr an_insight))),
           (''severity'', py_or (dict_get an_insight ''severity'') (JString ''medium'')),
           (''evidence'', text_or_empty repr
              (py_or (dict_get an_insight ''evidence'') (py_or (dict_get an_insight ''text'') (JString [])))),
           (''customer_impact'', text_or_empty repr
              (py_or (dict_get an_insight ''customer_impact'')
                 (py_or (dict_get an_insight ''impact'') (JString []))))]
      else
        JObject
          [(''insight'', JString (py_str repr an_insight)),
           (''severity'', JString ''medium''),
           (''evidence'', JString []),
           (''customer_impact'', JString [])])"

text \<open>Lines 321 to 341: one element of \<^verbatim>\<open>recommended_actions\<close>.\<close>

definition normalize_action :: "(json \<Rightarrow> string) \<Rightarrow> json \<Rightarrow> json" where
  "normalize_action repr an_action =
     (if is_dict an_action then
        JObject
          [(''action'', py_or (dict_get an_action ''action'') (JString (py_str repr an_action))),
           (''priority'', py_or (dict_get an_action ''priority'') (JString ''this_week'')),
           (''estimated_impact'', py_or (dict_get an_action ''estimated_impact'') (JString ''medium'')),
           (''suggested_owner'',
              py_or (dict_get an_action ''suggested_owner'') (py_or (dict_get an_action ''owner'') (JString []))),
           (''success_metrics'', text_or_empty repr
              (py_or (dict_get an_action ''success_metrics'')
                 (py_or (dict_get an_action ''metrics'') (JString []))))]
      else
        JObject
          [(''action'', JString (py_str repr an_action)),
           (''priority'', JString ''this_week''),
           (''estimated_impact'', JString ''medium''),
           (''suggested_owner'', JString []),
           (''success_metrics'', JString [])])"

definition map_list :: "(json \<Rightarrow> json) \<Rightarrow> json \<Rightarrow> json" where
  "map_list f v = (case v of JArray xs \<Rightarrow> JArray (map f xs) | _ \<Rightarrow> v)"

text \<open>Lines 346 to 356: \<^verbatim>\<open>customer_voice\<close>.\<close>

definition normalize_customer_voice :: "(json \<Rightarrow> string) \<Rightarrow> json \<Rightarrow> json" where
  "normalize_customer_voice repr cv =
     (case cv of
        JObject kvs \<Rightarrow>
          JObject (dict_set kvs ''quotes''
            (case map_of kvs ''quotes'' of
               Some (JArray qs) \<Rightarrow> JArray (map (item_text repr [''quote'']) qs)
             | _ \<Rightarrow> JArray []))
      | _ \<Rightarrow> JObject [(''quotes'', JArray [])])"

text \<open>Lines 362 to 369: one field of a \<^verbatim>\<open>week_over_week_comparison\<close> that is a \<^verbatim>\<open>dict\<close>.\<close>

definition normalize_wowc_field :: "(json \<Rightarrow> string) \<Rightarrow> string \<Rightarrow> (string \<times> json) list \<Rightarrow> (string \<times> json) list" where
  "normalize_wowc_field repr field kvs =
     dict_set kvs field
       (case map_of kvs field of
          Some (JArray xs) \<Rightarrow> JArray (map (item_text repr [''item'']) xs)
        | _ \<Rightarrow> JArray [])"

definition normalize_wowc :: "(json \<Rightarrow> string) \<Rightarrow> json \<Rightarrow> json" where
  "normalize_wowc repr wowc =
     (case wowc of
        JObject kvs \<Rightarrow>
          JObject (normalize_wowc_field repr ''stayed_same''
            (normalize_wowc_field repr ''deteriorated''
              (normalize_wowc_field repr ''improved'' kvs)))
      | _ \<Rightarrow> wowc)"

text \<open>\<^verbatim>\<open>Reporter._normalize\<close>, lines 257 to 371.\<close>

definition Reporter_normalize :: "(json \<Rightarrow> string) \<Rightarrow> json \<Rightarrow> error + json" where
  "Reporter_normalize repr data =
     (case data of
        JObject kvs \<Rightarrow>
          Inr (JObject
            (update_present ''week_over_week_comparison'' (normalize_wowc repr)
              (update_present ''customer_voice'' (normalize_customer_voice repr)
                (update_present ''recommended_actions'' (map_list (normalize_action repr))
                  (update_present ''key_insights'' (map_list (normalize_insight repr))
                    (update_present ''health_snapshot'' (normalize_health_snapshot repr)
                      (update_present ''executive_summary'' (coerce_text repr [''summary'', ''text'', ''note''])
                        kvs)))))))
      | _ \<Rightarrow>
          normalize_non_dict
            [''executive_summary'', ''health_snapshot'', ''key_insights'', ''recommended_actions'',
             ''customer_voice'', ''week_over_week_comparison''] data)"

subsection \<open>Prompt templates (\<^verbatim>\<open>prompts.py\<close>)\<close>

text \<open>
  Each template with \<^verbatim>\<open>str.format\<close> applied: the arguments, already text, are put
  in place of the fields. A character of the source beyond code point 255 is written as
  the bytes of its UTF-8 encoding.
\<close>

definition EXTRACT_PROMPT_format :: "string \<Rightarrow> string" where
  "EXTRACT_PROMPT_format ticket_content =
     ''Analyze this support ticket:'' @ [CHR 0x0A, CHR 0x0A] @ ticket_content @
     [CHR 0x0A, CHR 0x0A] @
     ''Extract JSON with: category, product_area, sentiment, priority, themes '' @
     ''(list), summary'' @ [CHR 0x0A, CHR 0x0A] @
     ''Categories: bug, feature_request, question, complaint'' @ [CHR 0x0A] @
     ''Sentiments: positive, neutral, negative, frustrated'' @ [CHR 0x0A] @
     ''Priorities: low, medium, high, critical'' @ [CHR 0x0A, CHR 0x0A] @
     ''Return ONLY valid JSON.''"

definition SUMMARIZE_PROMPT_format :: "string \<Rightarrow> string \<Rightarrow> string \<Rightarrow> string \<Rightarrow> string \<Rightarrow> string" where
  "SUMMARIZE_PROMPT_format n_tickets categories top_themes samples previous_summary =
     ''Summarize today'' @ [CHR 0x27] @ ''s support tickets.'' @ [CHR 0x0A, CHR 0x0A] @
     ''Stats:'' @ [CHR 0x0A] @ ''- Total tickets: '' @ n_tickets @ [CHR 0x0A] @
     ''- Categories: '' @ categories @ [CHR 0x0A] @ ''- Top themes: '' @ top_themes @
     [CHR 0x0A, CHR 0x0A] @ ''Sample tickets:'' @ [CHR 0x0A] @ samples @ [CHR 0x0A, CHR 0x0A] @
     ''Yesterday'' @ [CHR 0x27] @ ''s summary: '' @ previous_summary @ [CHR 0x0A, CHR 0x0A] @
     ''Generate JSON with:'' @ [CHR 0x0A] @ ''- key_themes: list of 5 most important themes'' @
     [CHR 0x0A] @ ''- trend_analysis: how this compares to yesterday'' @ [CHR 0x0A] @
     ''- critical_issues: anything requiring immediate attention'' @ [CHR 0x0A, CHR 0x0A] @
     ''Return ONLY valid JSON.''"

definition REPORT_PROMPT_format :: "string \<Rightarrow> string" where
  "REPORT_PROMPT_format summaries_text =
     ''Generate an executive report optimized for product team engagement and '' @
     ''action.'' @ [CHR 0x0A, CHR 0x0A] @ ''Last 7 days summaries:'' @ [CHR 0x0A] @
     summaries_text @ [CHR 0x0A, CHR 0x0A] @
     ''Create a JSON report with the following structure:'' @ [CHR 0x0A, CHR 0x0A] @
     ''1. executive_summary:'' @ [CHR 0x0A] @
     ''   - Start with the most critical insight (what changed and why it matters)'' @
     [CHR 0x0A] @ ''   - Include key metrics with directional indicators ('' @
     [CHR 0xE2, CHR 0x86, CHR 0x91, CHR 0xE2, CHR 0x86, CHR 0x93] @ '')'' @ [CHR 0x0A] @
     ''   - End with business impact (customer satisfaction, revenue risk, brand '' @
     ''reputation)'' @ [CHR 0x0A] @ ''   - Keep to 3-4 sentences max'' @ [CHR 0x0A, CHR 0x0A] @
     ''2. health_snapshot:'' @ [CHR 0x0A] @ ''   - overall_health: '' @ [CHR 0x22] @
     ''critical'' @ [CHR 0x22] @ '' | '' @ [CHR 0x22] @ ''concerning'' @ [CHR 0x22] @ '' | '' @
     [CHR 0x22] @ ''stable'' @ [CHR 0x22] @ '' | '' @ [CHR 0x22] @ ''improving'' @ [CHR 0x22] @
     '' (with brief justification)'' @ [CHR 0x0A] @
     ''   - ticket_volume_trend: numerical change with percentage'' @ [CHR 0x0A] @
     ''   - complaint_rate_trend: numerical change with percentage'' @ [CHR 0x0A] @
     ''   - top_3_drivers: list of issue types driving the most volume'' @
     [CHR 0x0A, CHR 0x0A] @ ''3. key_insights (5 insights, prioritized by impact):'' @
     [CHR 0x0A] @ ''   For each insight provide:'' @ [CHR 0x0A] @
     ''   - insight: the finding itself'' @ [CHR 0x0A] @ ''   - severity: '' @ [CHR 0x22] @
     ''critical'' @ [CHR 0x22] @ '' | '' @ [CHR 0x22] @ ''high'' @ [CHR 0x22] @ '' | '' @
     [CHR 0x22] @ ''medium'' @ [CHR 0x22] @ '' | '' @ [CHR 0x22] @ ''low'' @
     [CHR 0x22, CHR 0x0A] @
     ''   - evidence: specific data points or patterns supporting this'' @ [CHR 0x0A] @
     ''   - customer_impact: how this affects customer experience'' @ [CHR 0x0A, CHR 0x0A] @
     ''4. recommended_actions (3-5 actions, prioritized):'' @ [CHR 0x0A] @
     ''   For each action provide:'' @ [CHR 0x0A] @
     ''   - action: specific, actionable task'' @ [CHR 0x0A] @ ''   - priority: '' @
     [CHR 0x22] @ ''immediate'' @ [CHR 0x22] @ '' | '' @ [CHR 0x22] @ ''this_week'' @
     [CHR 0x22] @ '' | '' @ [CHR 0x22] @ ''this_month'' @ [CHR 0x22, CHR 0x0A] @
     ''   - estimated_impact: '' @ [CHR 0x22] @ ''high'' @ [CHR 0x22] @ '' | '' @ [CHR 0x22] @
     ''medium'' @ [CHR 0x22] @ '' | '' @ [CHR 0x22] @ ''low'' @ [CHR 0x22] @
     '' - expected reduction in ticket volume or complaint rate'' @ [CHR 0x0A] @
     ''   - suggested_owner: which team should own this (e.g., '' @ [CHR 0x22] @
     ''Engineering'' @ [CHR 0x22] @ '', '' @ [CHR 0x22] @ ''Operations'' @ [CHR 0x22] @
     '', '' @ [CHR 0x22] @ ''Product'' @ [CHR 0x22] @ '', '' @ [CHR 0x22] @ ''Support'' @
     [CHR 0x22] @ '')'' @ [CHR 0x0A] @
     ''   - success_metrics: how to measure if this worked (specific KPIs)'' @
     [CHR 0x0A, CHR 0x0A] @ ''5. customer_voice:'' @ [CHR 0x0A] @
     ''   - Include 2-3 verbatim ticket quotes or paraphrased examples that illustrate '' @
     ''the most critical issues'' @ [CHR 0x0A] @
     ''   - These should be emotionally resonant and help teams understand real '' @
     ''customer pain'' @ [CHR 0x0A, CHR 0x0A] @ ''6. week_over_week_comparison:'' @
     [CHR 0x0A] @
     ''   - Highlight what improved, what deteriorated, and what stayed the same'' @
     [CHR 0x0A] @ ''   - Focus on actionable changes, not just descriptive stats'' @
     [CHR 0x0A, CHR 0x0A] @ ''Guidelines:'' @ [CHR 0x0A] @
     ''- Use specific numbers over vague terms ('' @ [CHR 0x22] @ ''42% complaint rate'' @
     [CHR 0x22] @ '' not '' @ [CHR 0x22] @ ''high complaints'' @ [CHR 0x22] @ '')'' @
     [CHR 0x0A] @ ''- Frame insights around customer impact and business risk'' @ [CHR 0x0A] @
     ''- Make actions concrete enough that teams can start immediately'' @ [CHR 0x0A] @
     ''- Prioritize ruthlessly - what matters MOST right now'' @ [CHR 0x0A] @
     ''- Use urgency appropriately (not everything is critical)'' @ [CHR 0x0A, CHR 0x0A] @
     ''Return ONLY valid JSON.''"

subsection \<open>The inference client (\<^verbatim>\<open>client.py\<close>, \<^verbatim>\<open>APIClient\<close>)\<close>

text \<open>
  A stateful function either returns, raises, or never returns (it waits for a semaphore
  that has no permit and gets none).
\<close>

datatype failure = Raised error | NeverReturns

text \<open>
  The service behind \<^verbatim>\<open>self.client.messages.create\<close> is a parameter: to the request
  it receives as its \<open>i\<close>-th it answers after \<open>took\<close> seconds, with an exception or
  with a message whose content blocks have the texts \<open>blocks\<close>.
\<close>

record request =
  model_name :: string
  max_tokens :: nat
  prompt :: string

record response =
  took :: rat
  blocks :: "error + string list"

record APIClient =
  model :: string
  max_retries :: nat
  create :: "request \<Rightarrow> nat \<Rightarrow> response"

text \<open>
  What a run changes: the files of the cache directory, the requests the service has
  received, the time awaited on each of them, and the seconds slept between attempts.
\<close>

record world =
  cache :: cache_dir
  requests :: "request list"
  waits :: "rat list"
  sleeps :: "nat list"

text \<open>\<^verbatim>\<open>asyncio.wait_for(..., timeout)\<close>: an answer that takes longer than the timeout is
  \<^verbatim>\<open>TimeoutError\<close>.\<close>

definition wait_for :: "response \<Rightarrow> rat \<Rightarrow> error + string list" where
  "wait_for r timeout = (if timeout < took r then Inl TimeoutError else blocks r)"

text \<open>
  Lines 35 to 53, without the semaphore: one request under the timeout and
  \<^verbatim>\<open>response.content[0].text.strip()\<close>.
\<close>

definition attempt :: "APIClient \<Rightarrow> string \<Rightarrow> nat \<Rightarrow> rat \<Rightarrow> world \<Rightarrow> (error + string) \<times> world" where
  "attempt api p mt timeout w =
     (let req = \<lparr>model_name = model api, max_tokens = mt, prompt = p\<rparr>;
          r = create api req (length (requests w));
          w' = w\<lparr>requests := requests w @ [req], waits := waits w @ [min (took r) timeout]\<rparr>
      in case wait_for r timeout of
           Inl e \<Rightarrow> (Inl e, w')
         | Inr [] \<Rightarrow> (Inl IndexError, w')
         | Inr (text # others) \<Rightarrow> (Inr (strip text), w'))"

text \<open>
  \<^verbatim>\<open>APIClient.call\<close>, lines 31 to 64, from the iteration \<open>attempt_no\<close> of
  \<^verbatim>\<open>for attempt in range(self.max_retries)\<close> on. The semaphore is \<open>None\<close> when the
  caller passes none, and otherwise the number of permits free when this call asks for one;
  the permit is given back before the attempt's outcome is looked at. The two
  \<^verbatim>\<open>except\<close> clauses have the same body. A loop that runs out returns Python's
  \<^verbatim>\<open>None\<close>.
\<close>

function call_loop ::
  "APIClient \<Rightarrow> string \<Rightarrow> nat \<Rightarrow> rat \<Rightarrow> nat option \<Rightarrow> nat \<Rightarrow> world
   \<Rightarrow> (failure + string option) \<times> world" where
  "call_loop api p mt timeout semaphore attempt_no w =
     (if attempt_no < max_retries api then
        (if semaphore = Some 0 then (Inl NeverReturns, w)
         else
           (let (r, w') = attempt api p mt timeout w
            in case r of
                 Inr text \<Rightarrow> (Inr (Some text), w')
               | Inl e \<Rightarrow>
                   (if attempt_no < max_retries api - 1
                    then call_loop api p mt timeout semaphore (attempt_no + 1)
                           (w'\<lparr>sleeps := sleeps w' @ [2 ^ attempt_no]\<rparr>)
                    else (Inl (Raised e), w'))))
      else (Inr None, w))"
  by pat_completeness auto
termination
  by (relation "measure (\<lambda>(api, p, mt, timeout, semaphore, attempt_no, w). max_retries api - attempt_no)")
    auto

declare call_loop.simps [simp del]

definition call ::
  "APIClient \<Rightarrow> string \<Rightarrow> nat \<Rightarrow> rat \<Rightarrow> nat option \<Rightarrow> world \<Rightarrow> (failure + string option) \<times> world" where
  "call api p mt timeout semaphore w = call_loop api p mt timeout semaphore 0 w"

text \<open>The default \<^verbatim>\<open>timeout: float = 60.0\<close>.\<close>

definition default_timeout :: rat where
  "default_timeout = 60"

subsection \<open>The stages (\<^verbatim>\<open>orchestrator.py\<close>)\<close>

text \<open>
  A ticket is the \<^verbatim>\<open>dict\<close> that \<^verbatim>\<open>load_tickets\<close> builds, with its four keys
  \<^verbatim>\<open>id\<close>, \<^verbatim>\<open>content\<close>, \<^verbatim>\<open>created_at\<close> and \<^verbatim>\<open>metadata\<close>.
\<close>

record ticket =
  t_id :: string
  t_content :: string
  t_created_at :: string
  t_metadata :: json

text \<open>
  The library functions the stages call are parameters: \<^verbatim>\<open>datetime.fromisoformat\<close>
  (\<open>None\<close> for its \<^verbatim>\<open>ValueError\<close>), \<^verbatim>\<open>date.today()\<close>, \<^verbatim>\<open>repr\<close> of a value
  and \<^verbatim>\<open>str\<close> of an exception, and pydantic's \<^verbatim>\<open>model_validate_json\<close> and
  \<^verbatim>\<open>model_dump_json(indent=2)\<close> for the records that are cached.
\<close>

record env =
  api :: APIClient
  fromisoformat :: "string \<Rightarrow> date option"
  today :: date
  repr :: "json \<Rightarrow> string"
  exc_str :: "error \<Rightarrow> string"
  analysis_validate_json :: "string \<Rightarrow> error + TicketAnalysis"
  analysis_dump_json :: "TicketAnalysis \<Rightarrow> string"
  summary_validate_json :: "string \<Rightarrow> error + DailySummary"
  summary_dump_json :: "DailySummary \<Rightarrow> string"
  report_dump_json :: "Report \<Rightarrow> string"

text \<open>\<^verbatim>\<open>Extractor.extract_ticket\<close>, lines 26 to 58. A model instance is true in \<^verbatim>\<open>if cached\<close>.\<close>

definition extract_fresh ::
  "env \<Rightarrow> string \<Rightarrow> string \<Rightarrow> date \<Rightarrow> nat option \<Rightarrow> world \<Rightarrow> (failure + TicketAnalysis) \<times> world" where
  "extract_fresh e tid ticket_content ticket_date semaphore w =
     (let (r, w1) = call (api e) (EXTRACT_PROMPT_format ticket_content) 1024 default_timeout semaphore w
      in case r of
           Inl f \<Rightarrow> (Inl f, w1)
         | Inr None \<Rightarrow> (Inl (Raised AttributeError), w1)
         | Inr (Some text) \<Rightarrow>
            (case parse_json json_loads text of
               Inl err \<Rightarrow> (Inl (Raised err), w1)
             | Inr data \<Rightarrow>
                (case new_TicketAnalysis tid data of
                   Inl err \<Rightarrow> (Inl (Raised err), w1)
                 | Inr analysis \<Rightarrow>
                    (Inr analysis,
                     w1\<lparr>cache := save_dated (cache w1) tid ticket_date analysis
                                    (analysis_dump_json e)\<rparr>))))"

definition extract_ticket ::
  "env \<Rightarrow> string \<Rightarrow> string \<Rightarrow> date \<Rightarrow> nat option \<Rightarrow> world \<Rightarrow> (failure + TicketAnalysis) \<times> world" where
  "extract_ticket e tid ticket_content ticket_date semaphore w =
     (if exists_dated (cache w) tid ticket_date then
        (case get_dated (cache w) tid ticket_date (analysis_validate_json e) of
           Inl err \<Rightarrow> (Inl (Raised err), w)
         | Inr (Some cached) \<Rightarrow> (Inr cached, w)
         | Inr None \<Rightarrow> extract_fresh e tid ticket_content ticket_date semaphore w)
      else extract_fresh e tid ticket_content ticket_date semaphore w)"

text \<open>\<^verbatim>\<open>s.replace("Z", "+00:00")\<close>.\<close>

definition replace_Z :: "string \<Rightarrow> string" where
  "replace_Z s = concat (map (\<lambda>c. if c = CHR ''Z'' then ''+00:00'' else [c]) s)"

text \<open>Lines 91 to 99: the placeholder for a ticket whose extraction raised.\<close>

definition placeholder :: "env \<Rightarrow> string \<Rightarrow> error \<Rightarrow> TicketAnalysis" where
  "placeholder e tid err =
     \<lparr>ticket_id = tid, category = ''error'', product_area = ''unknown'', sentiment = ''neutral'',
      priority = ''low'', themes = [], summary = ''Failed to extract: '' @ exc_str e err\<rparr>"

text \<open>
  \<^verbatim>\<open>extract_with_progress\<close>, lines 70 to 99, with the counter \<^verbatim>\<open>completed\<close>;
  what it prints is left out. Lines 72 to 77 are \<open>ticket_date_of\<close>.
  \<^verbatim>\<open>except Exception\<close> takes what was raised.
\<close>

definition ticket_date_of :: "env \<Rightarrow> ticket \<Rightarrow> date" where
  "ticket_date_of e t =
     (case fromisoformat e (replace_Z (t_created_at t)) of
        Some d \<Rightarrow> d
      | None \<Rightarrow> today e)"

definition extract_with_progress ::
  "env \<Rightarrow> nat option \<Rightarrow> ticket \<Rightarrow> nat \<Rightarrow> world \<Rightarrow> (failure + TicketAnalysis) \<times> nat \<times> world" where
  "extract_with_progress e semaphore t completed w =
     (let ticket_date = ticket_date_of e t;
          (r, w') = extract_ticket e (t_id t) (t_content t) ticket_date semaphore w
      in case r of
           Inr result \<Rightarrow> (Inr result, completed + 1, w')
         | Inl (Raised err) \<Rightarrow> (Inr (placeholder e (t_id t) err), completed + 1, w')
         | Inl NeverReturns \<Rightarrow> (Inl NeverReturns, completed, w'))"

text \<open>
  \<^verbatim>\<open>asyncio.gather\<close> over the tickets, line 101, its tasks run one after the other in
  the order of the input; the results are in the order of the input whatever order the
  tasks finish in.
\<close>

fun gather_extract ::
  "env \<Rightarrow> nat option \<Rightarrow> ticket list \<Rightarrow> nat \<Rightarrow> world
   \<Rightarrow> (failure + TicketAnalysis list) \<times> nat \<times> world" where
  "gather_extract e semaphore [] completed w = (Inr [], completed, w)"
| "gather_extract e semaphore (t # ts) completed w =
     (case extract_with_progress e semaphore t completed w of
        (Inl f, c, w') \<Rightarrow> (Inl f, c, w')
      | (Inr a, c, w') \<Rightarrow>
         (case gather_extract e semaphore ts c w' of
            (Inl f, c', w'') \<Rightarrow> (Inl f, c', w'')
          | (Inr rest, c', w'') \<Rightarrow> (Inr (a # rest), c', w'')))"

text \<open>
  \<^verbatim>\<open>Extractor.extract_batch\<close>, lines 60 to 103. \<^verbatim>\<open>asyncio.Semaphore\<close> refuses a
  negative value with \<^verbatim>\<open>ValueError\<close>.
\<close>

definition extract_batch ::
  "env \<Rightarrow> ticket list \<Rightarrow> int \<Rightarrow> world \<Rightarrow> (failure + TicketAnalysis list) \<times> world" where
  "extract_batch e tickets max_concurrent w =
     (if max_concurrent < 0 then (Inl (Raised ValueError), w)
      else
        (case gather_extract e (Some (nat max_concurrent)) tickets 0 w of
           (r, completed, w') \<Rightarrow> (r, w')))"

text \<open>\<^verbatim>\<open>Counter(xs)\<close>: each element once, in the order of first occurrence, with its count.\<close>

fun count_up :: "(string \<times> nat) list \<Rightarrow> string \<Rightarrow> (string \<times> nat) list" where
  "count_up [] x = [(x, 1)]"
| "count_up ((k, n) # kns) x = (if k = x then (k, n + 1) # kns else (k, n) # count_up kns x)"

definition Counter :: "string list \<Rightarrow> (string \<times> nat) list" where
  "Counter xs = foldl count_up [] xs"

text \<open>\<^verbatim>\<open>most_common(n)\<close>: by falling count, equal counts in the order of first occurrence.\<close>

definition most_common :: "nat \<Rightarrow> (string \<times> nat) list \<Rightarrow> (string \<times> nat) list" where
  "most_common n counts = take n (sort_key (\<lambda>(k, c). - int c) counts)"

definition counts_json :: "(string \<times> nat) list \<Rightarrow> json" where
  "counts_json counts = JObject (map (\<lambda>(k, c). (k, JInt (int c))) counts)"

text \<open>Lines 148 to 151: \<^verbatim>\<open>f"- [{a.priority}] {a.category}: {a.summary}"\<close>.\<close>

definition sample_line :: "TicketAnalysis \<Rightarrow> string" where
  "sample_line a = ''- ['' @ TicketAnalysis.priority a @ ''] '' @ category a @ '': '' @ summary a"

text \<open>Lines 136 to 145: the context from the day before.\<close>

definition no_previous_summary :: string where
  "no_previous_summary = ''No previous summary''"

definition previous_context :: "env \<Rightarrow> cache_dir \<Rightarrow> date \<Rightarrow> error + string" where
  "previous_context e files target_date =
     (case minus_one_day target_date of
        Inl err \<Rightarrow> Inl err
      | Inr yesterday \<Rightarrow>
         (let yesterday_key = isoformat yesterday in
          if exists files yesterday_key then
            (case get files yesterday_key (summary_validate_json e) of
               Inl err \<Rightarrow> Inl err
             | Inr (Some prev) \<Rightarrow> Inr (trend_analysis prev)
             | Inr None \<Rightarrow> Inr no_previous_summary)
          else Inr no_previous_summary))"

text \<open>Lines 131 to 160: the prompt for one day.\<close>

definition summarize_prompt :: "env \<Rightarrow> TicketAnalysis list \<Rightarrow> string \<Rightarrow> string" where
  "summarize_prompt e analyses previous_summary =
     (let categories = Counter (map category analyses);
          all_themes = concat (map themes analyses);
          top_themes = most_common 10 (Counter all_themes);
          samples = join [CHR 0x0A] (map sample_line (take 15 analyses))
      in SUMMARIZE_PROMPT_format (nat_digits (length analyses)) (repr e (counts_json categories))
           (repr e (counts_json (dict top_themes))) samples previous_summary)"

text \<open>\<^verbatim>\<open>Summarizer.summarize_day\<close>, lines 113 to 175.\<close>

definition summarize_fresh ::
  "env \<Rightarrow> date \<Rightarrow> TicketAnalysis list \<Rightarrow> world \<Rightarrow> (failure + DailySummary) \<times> world" where
  "summarize_fresh e target_date analyses w =
     (case previous_context e (cache w) target_date of
        Inl err \<Rightarrow> (Inl (Raised err), w)
      | Inr previous_summary \<Rightarrow>
         (let (r, w1) = call (api e) (summarize_prompt e analyses previous_summary) 2048
                          default_timeout None w
          in case r of
               Inl f \<Rightarrow> (Inl f, w1)
             | Inr None \<Rightarrow> (Inl (Raised AttributeError), w1)
             | Inr (Some text) \<Rightarrow>
                (case parse_json json_loads text of
                   Inl err \<Rightarrow> (Inl (Raised err), w1)
                 | Inr data \<Rightarrow>
                    (case Summarizer_normalize (repr e) data of
                       Inl err \<Rightarrow> (Inl (Raised err), w1)
                     | Inr data' \<Rightarrow>
                        (case new_DailySummary target_date (length analyses) data' of
                           Inl err \<Rightarrow> (Inl (Raised err), w1)
                         | Inr s \<Rightarrow>
                            (Inr s,
                             w1\<lparr>cache := save (cache w1) (isoformat target_date) s
                                            (summary_dump_json e)\<rparr>))))))"

definition summarize_day ::
  "env \<Rightarrow> date \<Rightarrow> TicketAnalysis list \<Rightarrow> world \<Rightarrow> (failure + DailySummary) \<times> world" where
  "summarize_day e target_date analyses w =
     (let date_key = isoformat target_date in
      if exists (cache w) date_key then
        (case get (cache w) date_key (summary_validate_json e) of
           Inl err \<Rightarrow> (Inl (Raised err), w)
         | Inr (Some cached) \<Rightarrow> (Inr cached, w)
         | Inr None \<Rightarrow> summarize_fresh e target_date analyses w)
      else summarize_fresh e target_date analyses w)"

text \<open>Lines 228 to 233: one summary in the report prompt.\<close>

definition summary_text :: "DailySummary \<Rightarrow> string" where
  "summary_text s =
     ''Date: '' @ isoformat (date s) @ [CHR 0x0A] @ ''Tickets: '' @ nat_digits (ticket_count s)
     @ [CHR 0x0A] @ ''Themes: '' @ join '', '' (key_themes s) @ [CHR 0x0A]
     @ ''Analysis: '' @ trend_analysis s"

text \<open>
  \<^verbatim>\<open>Reporter.generate_report\<close>, lines 225 to 255. \<^verbatim>\<open>summaries[0]\<close> on an empty list
  is an \<^verbatim>\<open>IndexError\<close>, raised after the call and the normalization.
\<close>

definition generate_report :: "env \<Rightarrow> DailySummary list \<Rightarrow> world \<Rightarrow> (failure + Report) \<times> world" where
  "generate_report e summaries w =
     (let summaries_text = join [CHR 0x0A, CHR 0x0A] (map summary_text summaries);
          (r, w1) = call (api e) (REPORT_PROMPT_format summaries_text) 4096 default_timeout None w
      in case r of
           Inl f \<Rightarrow> (Inl f, w1)
         | Inr None \<Rightarrow> (Inl (Raised AttributeError), w1)
         | Inr (Some text) \<Rightarrow>
            (case parse_json json_loads text of
               Inl err \<Rightarrow> (Inl (Raised err), w1)
             | Inr data \<Rightarrow>
                (case Reporter_normalize (repr e) data of
                   Inl err \<Rightarrow> (Inl (Raised err), w1)
                 | Inr data' \<Rightarrow>
                    (if summaries = [] then (Inl (Raised IndexError), w1)
                     else
                       (let start = isoformat (date (hd summaries));
                            end_date = isoformat (date (last summaries))
                        in case new_Report (start @ '' to '' @ end_date) data' of
                             Inl err \<Rightarrow> (Inl (Raised err), w1)
                           | Inr report \<Rightarrow>
                              (Inr report,
                               w1\<lparr>cache := save (cache w1) (''report_'' @ start @ ''_'' @ end_date)
                                              report (report_dump_json e)\<rparr>))))))"

subsection \<open>Auxiliary notions for the statements about the JSON codec\<close>

text \<open>
  A Python \<^verbatim>\<open>dict\<close> has each key once: the well-formed values are those whose
  objects have distinct keys, at every depth.
\<close>

fun wf_json :: "json \<Rightarrow> bool" where
  "wf_json (JArray xs) = list_all wf_json xs"
| "wf_json (JObject kvs) = (distinct (map fst kvs) \<and> list_all (\<lambda>(k, v). wf_json v) kvs)"
| "wf_json v = True"

text \<open>
  The characters a canonical encoding can start and end with, and those that can follow
  an encoded value inside an encoding.
\<close>

definition value_end :: "string \<Rightarrow> bool" where
  "value_end rest = (case rest of [] \<Rightarrow> True | c # _ \<Rightarrow> c = CHR '','' \<or> c = CHR '']'' \<or> c = CHR ''}'')"

definition value_start :: "char \<Rightarrow> bool" where
  "value_start c = (isdigit c \<or> c \<in> set ''ntf-[{'' \<or> c = dquote)"

definition value_last :: "char \<Rightarrow> bool" where
  "value_last c = (isdigit c \<or> c \<in> set ''le]}'' \<or> c = dquote)"

text \<open>The fenced input \<^verbatim>\<open>```json\n{"a":1}\n```\<close>.\<close>

definition fenced_example :: string where
  "fenced_example = ''```json'' @ [CHR 0x0A] @ ''{'' @ [dquote] @ ''a'' @ [dquote] @ '':1}''
     @ [CHR 0x0A] @ ''```''"

subsection \<open>Notions for the statements about the client\<close>

text \<open>
  The request \<^verbatim>\<open>call\<close> sends, and what an attempt gives when the service receives
  that request as its \<open>i\<close>-th: the stripped text of the first content block, or the
  exception the attempt ends with. \<open>call_trace\<close> says what a run of the loop from
  iteration \<open>k\<close> that made \<open>m\<close> attempts has done. The two constants after it are a
  client whose service fails three times, and a fresh state.
\<close>

definition the_request :: "APIClient \<Rightarrow> string \<Rightarrow> nat \<Rightarrow> request" where
  "the_request a p mt = \<lparr>model_name = model a, max_tokens = mt, prompt = p\<rparr>"

definition outcome_at :: "APIClient \<Rightarrow> string \<Rightarrow> nat \<Rightarrow> rat \<Rightarrow> nat \<Rightarrow> error + string" where
  "outcome_at a p mt timeout i =
     (case wait_for (create a (the_request a p mt) i) timeout of
        Inl e \<Rightarrow> Inl e
      | Inr [] \<Rightarrow> Inl IndexError
      | Inr (text # others) \<Rightarrow> Inr (strip text))"

definition failing_api :: APIClient where
  "failing_api =
     \<lparr>model = ''claude-haiku-4-5'', max_retries = 3,
      create = (\<lambda>req i.
        if i = 0 then \<lparr>took = 100, blocks = Inr [''late'']\<rparr>
        else if i = 1 then \<lparr>took = 1, blocks = Inl (ServiceError ''overloaded'')\<rparr>
        else \<lparr>took = 2, blocks = Inl (ServiceError ''boom'')\<rparr>)\<rparr>"

definition empty_world :: world where
  "empty_world = \<lparr>cache = Map.empty, requests = [], waits = [], sleeps = []\<rparr>"

definition call_trace ::
  "APIClient \<Rightarrow> string \<Rightarrow> nat \<Rightarrow> rat \<Rightarrow> nat \<Rightarrow> world \<Rightarrow> (failure + string option) \<Rightarrow> world \<Rightarrow> nat \<Rightarrow> bool" where
  "call_trace a p mt timeout k w r w' m =
     (requests w' = requests w @ replicate m (the_request a p mt)
      \<and> (\<exists>ws. waits w' = waits w @ ws \<and> length ws = m \<and> (\<forall>x\<in>set ws. x \<le> timeout))
      \<and> sleeps w' = sleeps w @ map (\<lambda>i. 2 ^ i) [k..<k + m - 1]
      \<and> cache w' = cache w
      \<and> (\<forall>j. j + 1 < m \<longrightarrow> (\<exists>e. outcome_at a p mt timeout (length (requests w) + j) = Inl e))
      \<and> (case r of
            Inr (Some text) \<Rightarrow>
              1 \<le> m \<and> outcome_at a p mt timeout (length (requests w) + m - 1) = Inr text
          | Inr None \<Rightarrow> m = 0 \<and> max_retries a \<le> k
          | Inl (Raised e) \<Rightarrow>
              1 \<le> m \<and> k + m = max_retries a
              \<and> outcome_at a p mt timeout (length (requests w) + m - 1) = Inl e
          | Inl NeverReturns \<Rightarrow> False))"

subsection \<open>A concrete library for the examples\<close>

text \<open>
  A JSON codec for the cached analyses, for the statements that need a concrete library:
  the record as an object, written by \<^const>\<open>json_dumps\<close> and read by \<^const>\<open>json_loads\<close>.
\<close>

definition analysis_json :: "TicketAnalysis \<Rightarrow> json" where
  "analysis_json a =
     JObject [(''ticket_id'', JString (ticket_id a)), (''category'', JString (category a)),
       (''product_area'', JString (product_area a)), (''sentiment'', JString (sentiment a)),
       (''priority'', JString (TicketAnalysis.priority a)),
       (''themes'', JArray (map JString (themes a))), (''summary'', JString (summary a))]"

definition json_analysis :: "json \<Rightarrow> error + TicketAnalysis" where
  "json_analysis v =
     (case v of
        JObject kvs \<Rightarrow>
          (case (field_str kvs ''ticket_id'', field_str kvs ''category'',
                 field_str kvs ''product_area'', field_str kvs ''sentiment'',
                 field_str kvs ''priority'', field_strs kvs ''themes'',
                 field_str kvs ''summary'') of
             (Some i, Some a, Some b, Some c, Some d, Some f, Some g) \<Rightarrow>
               Inr \<lparr>ticket_id = i, category = a, product_area = b, sentiment = c,
                    priority = d, themes = f, summary = g\<rparr>
           | _ \<Rightarrow> Inl ValidationError)
      | _ \<Rightarrow> Inl ValidationError)"

definition compact_dump :: "TicketAnalysis \<Rightarrow> string" where
  "compact_dump a = json_dumps (analysis_json a)"

definition compact_validate :: "string \<Rightarrow> error + TicketAnalysis" where
  "compact_validate s =
     (case json_loads s of Inr v \<Rightarrow> json_analysis v | Inl err \<Rightarrow> Inl ValidationError)"

text \<open>
  A library for concrete runs: the service of \<^const>\<open>failing_api\<close>, which never
  answers usefully, the codec above for analyses, and a decoder for summaries that knows
  one text.
\<close>

definition stub_env :: env where
  "stub_env =
     \<lparr>api = failing_api,
      fromisoformat = (\<lambda>s. if s = ''2024-03-05'' then Some \<lparr>year = 2024, month = 3, day = 5\<rparr> else None),
      today = \<lparr>year = 2024, month = 3, day = 6\<rparr>,
      repr = json_dumps,
      exc_str = (\<lambda>err. ''error''),
      analysis_validate_json = compact_validate,
      analysis_dump_json = compact_dump,
      summary_validate_json = (\<lambda>s. if s = ''stable summary''
         then Inr \<lparr>date = \<lparr>year = 2024, month = 3, day = 4\<rparr>, ticket_count = 2,
                   key_themes = [], trend_analysis = ''stable'', critical_issues = []\<rparr>
         else Inl ValidationError),
      summary_dump_json = (\<lambda>s. trend_analysis s),
      report_dump_json = (\<lambda>r. executive_summary r)\<rparr>"

definition analysis_T1 :: TicketAnalysis where
  "analysis_T1 =
     \<lparr>ticket_id = ''T1'', category = ''bug'', product_area = ''checkout'', sentiment = ''negative'',
      priority = ''high'', themes = [''payment'', ''crash''], summary = ''Checkout crashes''\<rparr>"

definition march_5 :: date where
  "march_5 = \<lparr>year = 2024, month = 3, day = 5\<rparr>"

definition cached_world :: world where
  "cached_world = empty_world\<lparr>cache := [dated_path ''T1'' march_5 \<mapsto> compact_dump analysis_T1]\<rparr>"

subsection \<open>Notions for the statements about the batch\<close>

text \<open>
  The cache directory as the program leaves it: an analysis stored under a ticket id, if it
  decodes, carries that id. And what is asked of the library's codec: decoding what was
  dumped gives a record with the id that was dumped.
\<close>

definition ids_match :: "env \<Rightarrow> cache_dir \<Rightarrow> bool" where
  "ids_match e files =
     (\<forall>tid d cached_text a. files (dated_path tid d) = Some cached_text \<longrightarrow>
        analysis_validate_json e cached_text = Inr a \<longrightarrow> ticket_id a = tid)"

definition dump_keeps_id :: "env \<Rightarrow> bool" where
  "dump_keeps_id e =
     (\<forall>a a'. analysis_validate_json e (analysis_dump_json e a) = Inr a' \<longrightarrow>
        ticket_id a' = ticket_id a)"

text \<open>The state in which the task of the ticket at index \<open>i\<close> runs.\<close>

fun world_before :: "env \<Rightarrow> nat option \<Rightarrow> ticket list \<Rightarrow> nat \<Rightarrow> world \<Rightarrow> world" where
  "world_before e semaphore ts 0 w = w"
| "world_before e semaphore [] (Suc i) w = w"
| "world_before e semaphore (t # ts) (Suc i) w =
     world_before e semaphore ts i (snd (snd (extract_with_progress e semaphore t 0 w)))"

text \<open>What the batch puts at a ticket's position, given the outcome of its extraction.\<close>

definition result_for :: "env \<Rightarrow> ticket \<Rightarrow> failure + TicketAnalysis \<Rightarrow> TicketAnalysis option" where
  "result_for e t r =
     (case r of
        Inr a \<Rightarrow> Some a
      | Inl (Raised err) \<Rightarrow> Some (placeholder e (t_id t) err)
      | Inl NeverReturns \<Rightarrow> None)"

text \<open>
  A run of three tickets against a service that raises on the second one's prompt and
  answers the others with an analysis.
\<close>

definition reply_text :: string where
  "reply_text = json_dumps (JObject [(''category'', JString ''bug''),
     (''product_area'', JString ''checkout''), (''sentiment'', JString ''negative''),
     (''priority'', JString ''high''), (''themes'', JArray [JString ''payment'']),
     (''summary'', JString ''Checkout crashes'')])"

definition selective_api :: APIClient where
  "selective_api =
     \<lparr>model = ''claude-haiku-4-5'', max_retries = 3,
      create = (\<lambda>req i.
        if prompt req = EXTRACT_PROMPT_format ''broken''
        then \<lparr>took = 1, blocks = Inl (ServiceError ''boom'')\<rparr>
        else \<lparr>took = 1, blocks = Inr [reply_text]\<rparr>)\<rparr>"

definition batch_env :: env where
  "batch_env = stub_env\<lparr>api := selective_api\<rparr>"

definition three_tickets :: "ticket list" where
  "three_tickets =
     [\<lparr>t_id = ''T1'', t_content = ''It crashed'', t_created_at = ''2024-03-05'', t_metadata = JObject []\<rparr>,
      \<lparr>t_id = ''T2'', t_content = ''broken'', t_created_at = ''2024-03-05'', t_metadata = JObject []\<rparr>,
      \<lparr>t_id = ''T3'', t_content = ''Slow page'', t_created_at = ''yesterday'', t_metadata = JObject []\<rparr>]"

subsection \<open>Notions for the statements about the daily summary\<close>

text \<open>
  What \<^verbatim>\<open>summarize_day\<close> has sent when it went from \<open>w\<close> to \<open>w'\<close> with the
  previous-summary context \<open>prev\<close>: nothing else than the prompt built with \<open>prev\<close>,
  some number of times, and at least once when the day is not in the cache and the client
  makes attempts at all.
\<close>

definition sent_with :: "env \<Rightarrow> date \<Rightarrow> TicketAnalysis list \<Rightarrow> string \<Rightarrow> world \<Rightarrow> world \<Rightarrow> bool" where
  "sent_with e target_date analyses prev w w' =
     (\<exists>m. requests w' = requests w
              @ replicate m (the_request (api e) (summarize_prompt e analyses prev) 2048)
        \<and> (\<not> exists (cache w) (isoformat target_date) \<and> 0 < max_retries (api e) \<longrightarrow> 0 < m))"

text \<open>The line of the prompt that carries the context.\<close>

definition context_line :: "string \<Rightarrow> string" where
  "context_line prev = ''Yesterday'' @ [CHR 0x27] @ ''s summary: '' @ prev @ [CHR 0x0A]"

text \<open>A state in which the summary of 4 March 2024 is cached with the trend \<^verbatim>\<open>stable\<close>.\<close>

definition march_4_cached :: world where
  "march_4_cached = empty_world\<lparr>cache := [flat_path ''2024-03-04'' \<mapsto> ''stable summary'']\<rparr>"

section \<open>Properties\<close>

subsection \<open>The cache and undecodable files\<close>

text \<open>
  C2, as stated: for every key whose cache file exists but whose content the decoder cannot
  decode, \<^verbatim>\<open>get\<close> and \<^verbatim>\<open>get_dated\<close> return absence instead of raising.
  The code does not: with a file \<^verbatim>\<open>k.json\<close> holding \<^verbatim>\<open>garbage\<close> and a decoder that
  raises \<^verbatim>\<open>ValidationError\<close> on it, both raise that exception.
\<close>

theorem get_undecodable_counterexample:
  "get [flat_path ''k'' \<mapsto> ''garbage''] ''k''
       (\<lambda>text. (Inl ValidationError :: error + nat)) \<noteq> Inr None
   \<and> get_dated [dated_path ''k'' \<lparr>year = 2024, month = 3, day = 5\<rparr> \<mapsto> ''garbage''] ''k''
       \<lparr>year = 2024, month = 3, day = 5\<rparr>
       (\<lambda>text. (Inl ValidationError :: error + nat)) \<noteq> Inr None"
  by (simp add: get_def get_dated_def)

text \<open>
  C2, amended: for every key whose cache file exists, \<^verbatim>\<open>get\<close> and \<^verbatim>\<open>get_dated\<close>
  hand the file's text to the decoder and return what it returns: the decoded record, or,
  when the decoder raises, the decoder's own exception, which reaches the caller. Absence
  is returned exactly when the file does not exist.
\<close>

theorem get_propagates_decoder:
  "(exists dir key \<longrightarrow>
      (\<exists>text. dir (flat_path key) = Some text \<and>
         get dir key loader = map_sum id Some (loader text)))
   \<and> (exists_dated dir key d \<longrightarrow>
      (\<exists>text. dir (dated_path key d) = Some text \<and>
         get_dated dir key d loader = map_sum id Some (loader text)))
   \<and> (get dir key loader = Inr None \<longleftrightarrow> \<not> exists dir key)
   \<and> (get_dated dir key d loader = Inr None \<longleftrightarrow> \<not> exists_dated dir key d)"
  by (auto simp: get_def get_dated_def exists_def exists_dated_def
      split: option.splits sum.splits)

theorem get_propagates_decoder_witness:
  "exists [flat_path ''k'' \<mapsto> ''garbage''] ''k''
   \<and> exists_dated [dated_path ''k'' \<lparr>year = 2024, month = 3, day = 5\<rparr> \<mapsto> ''garbage''] ''k''
        \<lparr>year = 2024, month = 3, day = 5\<rparr>
   \<and> get [flat_path ''k'' \<mapsto> ''garbage''] ''k''
        (\<lambda>text. (Inl ValidationError :: error + nat)) = Inl ValidationError"
  using get_propagates_decoder [where dir = "[flat_path ''k'' \<mapsto> ''garbage'']"
      and key = "''k''" and d = "\<lparr>year = 2024, month = 3, day = 5\<rparr>"
      and loader = "\<lambda>text. (Inl ValidationError :: error + nat)"]
  by (simp add: exists_def exists_dated_def)

subsection \<open>The JSON codec: decoding an encoding gives the value back\<close>

lemma hex_val_hex_char: "k < 16 \<Longrightarrow> hex_val (hex_char k) = Some k"
proof -
  assume "k < 16"
  then have "k \<in> set [0, 1, 2, 3, 4, 5, 6, 7, 8, 9, 10, 11, 12, 13, 14, 15]"
    by (simp add: less_Suc_eq numeral_eq_Suc) 
  then show ?thesis
    by (auto simp: hex_val_def hex_char_def)
qed

lemma hex_val_zero: "hex_val (CHR ''0'') = Some 0"
  by (simp add: hex_val_def)

lemma decode_uXXXX_escape:
  "decode_uXXXX (CHR ''0'' # CHR ''0'' # hex_char (of_char c div 16) # hex_char (of_char c mod 16) # s)
     = Inr c"
proof -
  have lt: "(of_char c :: nat) < 256" by (rule nat_of_char_less_256)
  then have d: "(of_char c :: nat) div 16 < 16" by (intro less_mult_imp_div_less) simp
  have m: "(of_char c :: nat) mod 16 < 16" by simp
  have "char_of (16 * ((of_char c :: nat) div 16) + of_char c mod 16) = c"
    by simp
  then show ?thesis
    by (simp add: decode_uXXXX_def hex_val_zero hex_val_hex_char [OF d] hex_val_hex_char [OF m])
qed

lemma scanstring_escape_char:
  "scanstring (escape_char c @ s) =
     (case scanstring s of Inl e \<Rightarrow> Inl e | Inr (str, rest) \<Rightarrow> Inr (c # str, rest))"
  by (simp add: escape_char_def unescape_def decode_uXXXX_escape dquote_def backslash_def
      split: sum.splits)

lemma scanstring_dumps:
  "scanstring (concat (map escape_char s) @ dquote # rest) = Inr (s, rest)"
  by (induction s) (simp_all add: scanstring_escape_char)

lemma isdigit_digit_char: "isdigit (digit_char n)"
  by (simp add: isdigit_def digit_char_def)

lemma digit_char_val: "of_char (digit_char n) - 48 = n mod 10"
  by (simp add: digit_char_def)

lemma nat_digits_isdigit: "\<forall>c\<in>set (nat_digits n). isdigit c"
proof (induction n rule: nat_digits.induct)
  case (1 n)
  then show ?case
    by (subst nat_digits.simps) (auto simp: isdigit_digit_char)
qed

lemma nat_digits_nonempty: "nat_digits n \<noteq> []"
  by (subst nat_digits.simps) simp

lemma digits_val_snoc: "digits_val (ds @ [d]) = 10 * digits_val ds + (of_char d - 48)"
  by (simp add: digits_val_def)

lemma digits_val_nat_digits: "digits_val (nat_digits n) = n"
proof (induction n rule: nat_digits.induct)
  case (1 n)
  show ?case
  proof (cases "n < 10")
    case True
    then show ?thesis
      by (subst nat_digits.simps) (simp add: digits_val_def digit_char_val)
  next
    case False
    with 1 have "digits_val (nat_digits (n div 10)) = n div 10" by simp
    with False show ?thesis
      by (subst nat_digits.simps) (simp add: digits_val_snoc digit_char_val)
  qed
qed

lemma digit_char_eq_zero: "digit_char n = CHR ''0'' \<longleftrightarrow> n mod 10 = 0"
proof -
  have "digit_char n = CHR ''0'' \<longleftrightarrow> (of_char (digit_char n) :: nat) = of_char (CHR ''0'')"
    by (simp only: of_char_eq_iff)
  also have "\<dots> \<longleftrightarrow> n mod 10 = 0"
    by (simp add: digit_char_def)
  finally show ?thesis .
qed

lemma hd_nat_digits: "hd (nat_digits n) = CHR ''0'' \<longleftrightarrow> n = 0"
proof (induction n rule: nat_digits.induct)
  case (1 n)
  show ?case
  proof (cases "n < 10")
    case True
    then show ?thesis
      by (subst nat_digits.simps) (simp add: digit_char_eq_zero)
  next
    case False
    with 1 have "hd (nat_digits (n div 10)) = CHR ''0'' \<longleftrightarrow> n div 10 = 0" by simp
    moreover from False have "n div 10 \<noteq> 0" by simp
    ultimately show ?thesis using False
      by (subst nat_digits.simps) (simp add: nat_digits_nonempty)
  qed
qed

lemma value_end_not_float: "value_end rest \<Longrightarrow> \<not> float_tail rest"
  by (auto simp: value_end_def float_tail_def split: list.splits)
 

lemma value_end_takeWhile:
  "value_end rest \<Longrightarrow> \<forall>c\<in>set ds. isdigit c \<Longrightarrow> takeWhile isdigit (ds @ rest) = ds"
  by (induction ds) (auto simp: value_end_def isdigit_def split: list.splits)

lemma value_end_skip_ws: "value_end rest \<Longrightarrow> skip_ws rest = rest"
  by (auto simp: value_end_def skip_ws_def split: list.splits)

lemma match_number_digits:
  assumes "value_end rest"
  shows "match_number (nat_digits n @ rest) = Some (Inr (JInt (int n), rest))"
proof -
  obtain c cs where cs: "nat_digits n = c # cs"
    using nat_digits_nonempty [of n] by (cases "nat_digits n") auto
  have dig: "\<forall>x\<in>set (c # cs). isdigit x"
    using nat_digits_isdigit [of n] cs by simp
  then have c: "isdigit c" by simp
  then have notneg: "c \<noteq> CHR ''-''" by (auto simp: isdigit_def)
  have tw: "takeWhile isdigit (cs @ rest) = cs"
    using value_end_takeWhile [OF assms, of cs] dig by simp
  have zero: "c = CHR ''0'' \<Longrightarrow> cs = []"
  proof -
    assume "c = CHR ''0''"
    with cs hd_nat_digits [of n] have "n = 0" by simp
    with cs show "cs = []" by (simp add: nat_digits.simps)
  qed
  have val: "digits_val (c # cs) = n"
    using digits_val_nat_digits [of n] cs by simp
  show ?thesis
    using c notneg tw zero val value_end_not_float [OF assms]
    by (auto simp: match_number_def cs Let_def)
qed

lemma match_number_dumps_int:
  assumes "value_end rest"
  shows "match_number (dumps_int i @ rest) = Some (Inr (JInt i, rest))"
proof (cases "i < 0")
  case False
  then show ?thesis
    using match_number_digits [OF assms, of "nat i"] by (simp add: dumps_int_def)
next
  case True
  have m: "match_number (nat_digits (nat (- i)) @ rest) = Some (Inr (JInt (int (nat (- i))), rest))"
    by (rule match_number_digits [OF assms])
  obtain c cs where cs: "nat_digits (nat (- i)) = c # cs"
    using nat_digits_nonempty [of "nat (- i)"] by (cases "nat_digits (nat (- i))") auto
  have "isdigit c" using nat_digits_isdigit [of "nat (- i)"] cs by simp
  then have notneg: "c \<noteq> CHR ''-''" by (auto simp: isdigit_def)
  show ?thesis
    using m True notneg
    by (auto simp: match_number_def dumps_int_def cs Let_def split: if_splits)
qed

lemma json_dumps_start: "\<exists>c cs. json_dumps v = c # cs \<and> value_start c"
proof (cases v)
  case (JInt i)
  obtain c cs where cs: "nat_digits (nat \<bar>i\<bar>) = c # cs"
    using nat_digits_nonempty [of "nat \<bar>i\<bar>"] by (cases "nat_digits (nat \<bar>i\<bar>)") auto
  then have "isdigit c" using nat_digits_isdigit [of "nat \<bar>i\<bar>"] by simp
  with cs JInt show ?thesis
    by (cases "i < 0") (auto simp: dumps_int_def value_start_def abs_if)
next
  case (JArray xs)
  then show ?thesis by (cases xs) (auto simp: value_start_def)
next
  case (JObject kvs)
  then show ?thesis by (cases kvs) (auto simp: value_start_def)
qed (auto simp: value_start_def dumps_str_def)

lemma value_start_skip_ws: "value_start c \<Longrightarrow> skip_ws (c # cs) = c # cs"
  by (auto simp: value_start_def skip_ws_def isdigit_def dquote_def)

lemma skip_ws_dumps: "skip_ws (json_dumps v @ rest) = json_dumps v @ rest"
  using json_dumps_start [of v] by (auto simp: value_start_skip_ws)

lemma skip_ws_space_dumps: "skip_ws (CHR '' '' # json_dumps v @ rest) = json_dumps v @ rest"
  using skip_ws_dumps [of v rest] by (simp add: skip_ws_def)

lemma skip_ws_punct [simp]:
  "skip_ws (CHR '','' # r) = CHR '','' # r"
  "skip_ws (CHR '']'' # r) = CHR '']'' # r"
  "skip_ws (CHR ''}'' # r) = CHR ''}'' # r"
  "skip_ws (CHR '':'' # r) = CHR '':'' # r"
  "skip_ws (dquote # r) = dquote # r"
  by (simp_all add: skip_ws_def dquote_def)

lemma value_end_items: "value_end (dumps_items xs @ CHR '']'' # rest)"
  by (cases xs) (simp_all add: value_end_def)

lemma value_end_members: "value_end (dumps_members kvs @ CHR ''}'' # rest)"
  by (cases kvs) (auto simp: value_end_def)

lemma array_loop_dumps:
  assumes "\<forall>x\<in>set (y # ys). \<forall>n rest. size x < n \<longrightarrow> value_end rest \<longrightarrow>
             scan_once n (json_dumps x @ rest) = Inr (x, rest)"
    and "size_list size (y # ys) < n" and "value_end rest"
  shows "array_loop n vals (json_dumps y @ dumps_items ys @ CHR '']'' # rest)
           = Inr (JArray (vals @ y # ys), rest)"
  using assms
proof (induction ys arbitrary: y n vals)
  case Nil
  then obtain m where n: "n = Suc m" and m: "size y < m" by (cases n) auto
  have "scan_once m (json_dumps y @ CHR '']'' # rest) = Inr (y, CHR '']'' # rest)"
    using Nil.prems(1) m by (simp add: value_end_def)
  then show ?case by (simp add: n)
next
  case (Cons z zs)
  then obtain m where n: "n = Suc m" and m: "size y < m" and m': "size_list size (z # zs) < m"
    by (cases n) auto
  let ?tail = "dumps_items (z # zs) @ CHR '']'' # rest"
  have "scan_once m (json_dumps y @ ?tail) = Inr (y, ?tail)"
    using Cons.prems(1) m value_end_items [of "z # zs" rest] by simp
  moreover have "array_loop m (vals @ [y]) (json_dumps z @ dumps_items zs @ CHR '']'' # rest)
      = Inr (JArray ((vals @ [y]) @ z # zs), rest)"
    using Cons.prems(1) m' Cons.prems(3) by (intro Cons.IH) auto
  ultimately show ?case
    by (simp add: n skip_ws_space_dumps)
qed

lemma dict_set_fresh: "k \<notin> fst ` set d \<Longrightarrow> dict_set d k v = d @ [(k, v)]"
  by (induction d) auto

lemma foldl_dict_set_distinct:
  "distinct (map fst (d @ kvs)) \<Longrightarrow> foldl (\<lambda>d (k, v). dict_set d k v) d kvs = d @ kvs"
proof (induction kvs arbitrary: d)
  case Nil
  then show ?case by simp
next
  case (Cons p kvs)
  obtain k v where p: "p = (k, v)" by (cases p)
  from Cons.prems have fresh: "k \<notin> fst ` set d" by (auto simp: p)
  from Cons.prems have "distinct (map fst ((d @ [(k, v)]) @ kvs))" by (auto simp: p)
  then have "foldl (\<lambda>d (k, v). dict_set d k v) (d @ [(k, v)]) kvs = (d @ [(k, v)]) @ kvs"
    by (rule Cons.IH)
  then show ?case by (simp add: p dict_set_fresh [OF fresh])
qed

lemma dict_distinct: "distinct (map fst kvs) \<Longrightarrow> dict kvs = kvs"
  using foldl_dict_set_distinct [of "[]" kvs] by (simp add: dict_def)

lemma object_loop_dumps:
  assumes "\<forall>(k, x)\<in>set ((k0, v0) # kvs). \<forall>n rest. size x < n \<longrightarrow> value_end rest \<longrightarrow>
             scan_once n (json_dumps x @ rest) = Inr (x, rest)"
    and "size_list (size_prod (\<lambda>x. 0) size) ((k0, v0) # kvs) < n" and "value_end rest"
  shows "object_loop n pairs
           (concat (map escape_char k0) @ dquote # '': '' @ json_dumps v0 @ dumps_members kvs
              @ CHR ''}'' # rest)
           = Inr (JObject (dict (pairs @ (k0, v0) # kvs)), rest)"
  using assms
proof (induction kvs arbitrary: k0 v0 n pairs)
  case Nil
  then obtain m where n: "n = Suc m" and m: "size v0 < m" by (cases n) auto
  have "scan_once m (json_dumps v0 @ CHR ''}'' # rest) = Inr (v0, CHR ''}'' # rest)"
    using Nil.prems(1) m by (simp add: value_end_def)
  then show ?case by (simp add: n scanstring_dumps skip_ws_space_dumps)
next
  case (Cons p kvs)
  obtain k1 v1 where p: "p = (k1, v1)" by (cases p)
  from Cons.prems(2) obtain m where n: "n = Suc m" and m: "size v0 < m"
    and m': "size_list (size_prod (\<lambda>x. 0) size) ((k1, v1) # kvs) < m"
    by (cases n) (auto simp: p)
  let ?tail = "dumps_members ((k1, v1) # kvs) @ CHR ''}'' # rest"
  have "scan_once m (json_dumps v0 @ ?tail) = Inr (v0, ?tail)"
    using Cons.prems(1) m value_end_members [of "(k1, v1) # kvs" rest] by simp
  moreover have "object_loop m (pairs @ [(k0, v0)])
       (concat (map escape_char k1) @ dquote # '': '' @ json_dumps v1 @ dumps_members kvs
          @ CHR ''}'' # rest)
      = Inr (JObject (dict ((pairs @ [(k0, v0)]) @ (k1, v1) # kvs)), rest)"
    using Cons.prems(1) m' Cons.prems(3) by (intro Cons.IH) (auto simp: p)
  moreover have "skip_ws (CHR '' '' # dquote # r) = dquote # r" for r
    by (simp add: skip_ws_def dquote_def)
  ultimately show ?case
    by (simp add: n p scanstring_dumps skip_ws_space_dumps dumps_str_def)
qed

lemma scan_once_dumps:
  "wf_json v \<Longrightarrow> size v < n \<Longrightarrow> value_end rest \<Longrightarrow>
     scan_once n (json_dumps v @ rest) = Inr (v, rest)"
proof (induction v arbitrary: n rest)
  case JNull
  then obtain m where "n = Suc m" by (cases n) auto
  then show ?case by (simp add: dquote_def)
next
  case (JBool b)
  then obtain m where "n = Suc m" by (cases n) auto
  then show ?case by (simp add: dquote_def)
next
  case (JInt i)
  then obtain m where n: "n = Suc m" by (cases n) auto
  obtain c cs where cs: "dumps_int i = c # cs" and c: "value_start c"
    using json_dumps_start [of "JInt i"] by auto
  have c': "isdigit c \<or> c = CHR ''-''"
  proof -
    obtain d ds where ds: "nat_digits (nat \<bar>i\<bar>) = d # ds"
      using nat_digits_nonempty [of "nat \<bar>i\<bar>"] by (cases "nat_digits (nat \<bar>i\<bar>)") auto
    then have "isdigit d" using nat_digits_isdigit [of "nat \<bar>i\<bar>"] by simp
    with ds cs show ?thesis
      by (cases "i < 0") (auto simp: dumps_int_def abs_if)
  qed
  have m: "match_number (c # cs @ rest) = Some (Inr (JInt i, rest))"
    using match_number_dumps_int [OF JInt.prems(3), of i] by (simp add: cs)
  from c' have ne: "c \<noteq> dquote" "c \<noteq> CHR ''{''" "c \<noteq> CHR ''[''" "c \<noteq> CHR ''n''"
    "c \<noteq> CHR ''t''" "c \<noteq> CHR ''f''"
    by (auto simp: dquote_def isdigit_def)
  show ?case
    by (simp add: n cs m ne)
next
  case (JString s)
  then obtain m where "n = Suc m" by (cases n) auto
  then show ?case by (simp add: dumps_str_def scanstring_dumps)
next
  case (JArray xs)
  then obtain m where n: "n = Suc m" by (cases n) auto
  show ?case
  proof (cases xs)
    case Nil
    then show ?thesis by (simp add: n dquote_def)
  next
    case (Cons y ys)
    obtain c cs where cs: "json_dumps y = c # cs" and c: "value_start c"
      using json_dumps_start [of y] by auto
    have "array_loop m [] (json_dumps y @ dumps_items ys @ CHR '']'' # rest)
         = Inr (JArray ([] @ y # ys), rest)"
      using JArray Cons n by (intro array_loop_dumps) (auto simp: list_all_iff)
    moreover have "c \<noteq> CHR '']''" using c by (auto simp: value_start_def isdigit_def dquote_def)
    ultimately show ?thesis
      using skip_ws_dumps [of y "dumps_items ys @ CHR '']'' # rest"] 
      by (simp add: n Cons dquote_def cs)
  qed
next
  case (JObject kvs)
  then obtain m where n: "n = Suc m" by (cases n) auto
  show ?case
  proof (cases kvs)
    case Nil
    then show ?thesis by (simp add: n dquote_def)
  next
    case (Cons p ps)
    obtain k0 v0 where p: "p = (k0, v0)" by (cases p)
    have "object_loop m []
           (concat (map escape_char k0) @ dquote # '': '' @ json_dumps v0 @ dumps_members ps
              @ CHR ''}'' # rest)
           = Inr (JObject (dict ([] @ (k0, v0) # ps)), rest)"
      using JObject Cons n p by (intro object_loop_dumps) (fastforce simp: list_all_iff)+
    moreover have "dict kvs = kvs" using JObject.prems(1) by (simp add: dict_distinct)
    ultimately show ?thesis
      by (simp add: n Cons p dumps_str_def) (simp add: dquote_def)
  qed
qed

lemma size_le_dumps:
  "size v \<le> length (json_dumps v)"
  "size_list size xs \<le> length (dumps_items xs)"
  "size_list (size_prod (\<lambda>x. 0) size) kvs \<le> length (dumps_members kvs)"
  by (induction v and xs and kvs rule: json_dumps_dumps_items_dumps_members.induct) simp_all

lemma json_loads_dumps: "wf_json v \<Longrightarrow> json_loads (json_dumps v) = Inr v"
proof -
  assume wf: "wf_json v"
  have "size v < 2 * length (json_dumps v) + 1"
    using size_le_dumps(1) [of v] by simp
  then have "scan_once (2 * length (json_dumps v) + 1) (json_dumps v @ []) = Inr (v, [])"
    using wf by (intro scan_once_dumps) (simp_all add: value_end_def)
  then show ?thesis
    using skip_ws_dumps [of v "[]"] by (simp add: json_loads_def skip_ws_def)
qed

lemma nat_digits_last: "isdigit (last (nat_digits n))"
  using nat_digits_isdigit [of n] nat_digits_nonempty [of n] last_in_set by blast

lemma json_dumps_last: "value_last (last (json_dumps v))"
proof (cases v)
  case (JInt i)
  then show ?thesis
    using nat_digits_last [of "nat (- i)"] nat_digits_last [of "nat i"]
    by (simp add: dumps_int_def value_last_def nat_digits_nonempty)
next
  case (JArray xs)
  then show ?thesis by (cases xs) (auto simp: value_last_def)
next
  case (JObject kvs)
  then show ?thesis by (cases kvs) (auto simp: value_last_def)
qed (auto simp: value_last_def dumps_str_def)

lemma value_start_not_space: "value_start c \<Longrightarrow> \<not> isspace c"
  by (auto simp: value_start_def isspace_def isdigit_def dquote_def)

lemma value_last_not_space: "value_last c \<Longrightarrow> \<not> isspace c"
  by (auto simp: value_last_def isspace_def isdigit_def dquote_def)

lemma value_start_not_backtick: "value_start c \<Longrightarrow> c \<noteq> CHR 0x60"
  by (auto simp: value_start_def isdigit_def dquote_def)

lemma rstrip_id: "\<not> isspace (last s) \<Longrightarrow> s \<noteq> [] \<Longrightarrow> rstrip s = s"
  by (cases s rule: rev_cases) (simp_all add: rstrip_def)

lemma strip_dumps: "strip (json_dumps v) = json_dumps v"
proof -
  obtain c cs where cs: "json_dumps v = c # cs" and c: "value_start c"
    using json_dumps_start [of v] by auto
  have "\<not> isspace (last (json_dumps v))"
    by (rule value_last_not_space [OF json_dumps_last])
  then have "rstrip (json_dumps v) = json_dumps v"
    by (rule rstrip_id) (simp add: cs)
  moreover have "lstrip (json_dumps v) = json_dumps v"
    using value_start_not_space [OF c] by (simp add: lstrip_def cs)
  ultimately show ?thesis by (simp add: strip_def)
qed

lemma working_text_dumps: "working_text (json_dumps v) = json_dumps v"
proof -
  obtain c cs where cs: "json_dumps v = c # cs" and c: "value_start c"
    using json_dumps_start [of v] by auto
  have "\<not> startswith (json_dumps v) fence"
    using value_start_not_backtick [OF c] by (simp add: cs startswith_def fence_def)
  then show ?thesis by (simp add: working_text_def strip_dumps)
qed

subsection \<open>Round trip through the recovery parser\<close>

text \<open>
  C4: for every JSON value \<open>v\<close> (integers, strings, booleans, null, arrays and objects,
  each object with distinct keys, as a Python \<^verbatim>\<open>dict\<close> has them), parsing the
  canonical encoding of \<open>v\<close> with the recovery parser returns exactly \<open>v\<close>.
\<close>

theorem parse_json_roundtrip: "wf_json v \<Longrightarrow> parse_json json_loads (json_dumps v) = Inr v"
  by (simp add: parse_json_def recover_def working_text_dumps json_loads_dumps)

theorem parse_json_roundtrip_witness:
  "wf_json (JObject [(''a'', JInt 1), (''b'', JArray [JNull, JBool True, JString ''x y'', JInt (- 12)]),
      (''c'', JObject [])])
   \<and> parse_json json_loads (json_dumps (JObject [(''a'', JInt 1),
        (''b'', JArray [JNull, JBool True, JString ''x y'', JInt (- 12)]), (''c'', JObject [])]))
     = Inr (JObject [(''a'', JInt 1), (''b'', JArray [JNull, JBool True, JString ''x y'', JInt (- 12)]),
        (''c'', JObject [])])"
  using parse_json_roundtrip [of "JObject [(''a'', JInt 1),
        (''b'', JArray [JNull, JBool True, JString ''x y'', JInt (- 12)]), (''c'', JObject [])]"]
  by simp

subsection \<open>Fenced input\<close>

lemma startswith_prefix_part:
  "startswith (xs @ ys) p \<Longrightarrow> length p \<le> length xs \<Longrightarrow> startswith xs p"
  by (simp add: startswith_def)

lemma split_from_first:
  assumes "sep \<noteq> []" and "\<not> contains (body @ take (length sep - 1) sep) sep"
  shows "split_from sep acc (body @ sep @ rest) = (rev acc @ body) # split_from sep [] rest"
  using assms(2)
proof (induction body arbitrary: acc)
  case Nil
  from assms(1) obtain c cs where sep: "sep = c # cs" by (cases sep) auto
  show ?case by (simp add: sep startswith_def)
next
  case (Cons b bs)
  from assms(1) obtain c cs where sep: "sep = c # cs" by (cases sep) auto
  let ?X = "(b # bs) @ take (length sep - 1) sep"
  have split: "(b # bs) @ sep @ rest = ?X @ (drop (length sep - 1) sep @ rest)"
    by simp
  have len: "length sep \<le> length ?X" by (simp add: sep)
  from Cons.prems have nX: "\<not> startswith ?X sep" and nrest: "\<not> contains (bs @ take (length sep - 1) sep) sep"
    by simp_all
  have "\<not> startswith ((b # bs) @ sep @ rest) sep"
  proof
    assume "startswith ((b # bs) @ sep @ rest) sep"
    then have "startswith (?X @ (drop (length sep - 1) sep @ rest)) sep"
      by (simp only: split)
    then have "startswith ?X sep" using len by (rule startswith_prefix_part)
    with nX show False by contradiction
  qed
  then have "split_from sep acc ((b # bs) @ sep @ rest) = split_from sep (b # acc) (bs @ sep @ rest)"
    by simp
  also have "\<dots> = (rev (b # acc) @ bs) # split_from sep [] rest"
    using nrest by (rule Cons.IH)
  finally show ?case by simp
qed

lemma working_text_fenced:
  assumes "strip content = fence @ body @ fence @ rest"
    and "\<not> contains (body @ ''``'') fence"
  shows "working_text content =
           strip (if startswith body ''json'' \<or> startswith body ''JSON'' then drop 4 body else body)"
proof -
  have "split_from fence [] (fence @ body @ fence @ rest)
       = [] # split_from fence [] (body @ fence @ rest)"
    by (simp add: fence_def startswith_def)
  also have "split_from fence [] (body @ fence @ rest) = (rev [] @ body) # split_from fence [] rest"
    using assms(2) by (intro split_from_first) (simp_all add: fence_def)
  finally have parts: "split (strip content) fence = [] # body # split_from fence [] rest"
    by (simp add: split_def assms(1))
  have "startswith (strip content) fence"
    by (simp add: assms(1) startswith_def)
  then show ?thesis
    by (simp add: working_text_def Let_def parts)
qed

text \<open>
  C5: for input whose trimmed text begins with a triple-backtick fence, \<^verbatim>\<open>parse_json\<close>
  takes the content \<open>body\<close> between the first and the second fence (no fence starts
  inside \<open>body\<close>), strips a leading \<^verbatim>\<open>json\<close> or \<^verbatim>\<open>JSON\<close> tag, trims it and
  parses that text, whatever decoder \<open>loads\<close> is; and on the fenced input
  \<^verbatim>\<open>```json\n{"a":1}\n```\<close> it returns the object \<^verbatim>\<open>{"a": 1}\<close>.
\<close>

theorem parse_json_fenced:
  "(strip content = fence @ body @ fence @ rest \<and> \<not> contains (body @ ''``'') fence \<longrightarrow>
      parse_json loads content =
        recover loads
          (strip (if startswith body ''json'' \<or> startswith body ''JSON'' then drop 4 body else body)))
   \<and> parse_json json_loads fenced_example = Inr (JObject [(''a'', JInt 1)])"
proof
  show "strip content = fence @ body @ fence @ rest \<and> \<not> contains (body @ ''``'') fence \<longrightarrow>
      parse_json loads content =
        recover loads
          (strip (if startswith body ''json'' \<or> startswith body ''JSON'' then drop 4 body else body))"
    by (simp add: parse_json_def working_text_fenced)
  show "parse_json json_loads fenced_example = Inr (JObject [(''a'', JInt 1)])"
    by code_simp
qed

theorem parse_json_fenced_witness:
  "strip (''  '' @ fenced_example @ '' '') = fence @ (''json'' @ [CHR 0x0A] @ ''{'' @ [dquote] @ ''a'' @ [dquote] @ '':1}'' @ [CHR 0x0A]) @ fence @ []
   \<and> \<not> contains ((''json'' @ [CHR 0x0A] @ ''{'' @ [dquote] @ ''a'' @ [dquote] @ '':1}'' @ [CHR 0x0A]) @ ''``'') fence
   \<and> parse_json json_loads (''  '' @ fenced_example @ '' '') = json_loads (''{'' @ [dquote] @ ''a'' @ [dquote] @ '':1}'')"
proof -
  have 1: "strip (''  '' @ fenced_example @ '' '') = fence @ (''json'' @ [CHR 0x0A] @ ''{'' @ [dquote] @ ''a'' @ [dquote] @ '':1}'' @ [CHR 0x0A]) @ fence @ []"
    by code_simp
  have 2: "\<not> contains ((''json'' @ [CHR 0x0A] @ ''{'' @ [dquote] @ ''a'' @ [dquote] @ '':1}'' @ [CHR 0x0A]) @ ''``'') fence"
    by code_simp
  have 3: "strip (drop 4 (''json'' @ [CHR 0x0A] @ ''{'' @ [dquote] @ ''a'' @ [dquote] @ '':1}'' @ [CHR 0x0A])) = ''{'' @ [dquote] @ ''a'' @ [dquote] @ '':1}''"
    by code_simp
  have 4: "recover json_loads (''{'' @ [dquote] @ ''a'' @ [dquote] @ '':1}'') = json_loads (''{'' @ [dquote] @ ''a'' @ [dquote] @ '':1}'')"
    by code_simp
  from parse_json_fenced [of "''  '' @ fenced_example @ '' ''"
      "''json'' @ [CHR 0x0A] @ ''{'' @ [dquote] @ ''a'' @ [dquote] @ '':1}'' @ [CHR 0x0A]" "[]" json_loads] 1 2 3 4
  show ?thesis by (simp add: startswith_def)
qed

subsection \<open>Retries of the inference client\<close>

lemma attempt_eq:
  "attempt a p mt timeout w =
     (outcome_at a p mt timeout (length (requests w)),
      w\<lparr>requests := requests w @ [the_request a p mt],
        waits := waits w @ [min (took (create a (the_request a p mt) (length (requests w)))) timeout]\<rparr>)"
  by (simp add: attempt_def outcome_at_def the_request_def Let_def split: sum.splits list.splits)

lemma call_loop_step:
  assumes "k < max_retries a" and "semaphore \<noteq> Some 0"
  shows "call_loop a p mt timeout semaphore k w =
     (let w1 = w\<lparr>requests := requests w @ [the_request a p mt],
                  waits := waits w @ [min (took (create a (the_request a p mt) (length (requests w)))) timeout]\<rparr>
      in case outcome_at a p mt timeout (length (requests w)) of
           Inr reply \<Rightarrow> (Inr (Some reply), w1)
         | Inl e \<Rightarrow>
             (if k < max_retries a - 1
              then call_loop a p mt timeout semaphore (k + 1) (w1\<lparr>sleeps := sleeps w1 @ [2 ^ k]\<rparr>)
              else (Inl (Raised e), w1)))"
  using assms
  by (subst call_loop.simps) (simp add: attempt_eq Let_def split: sum.splits)

lemma call_loop_done:
  "\<not> k < max_retries a \<Longrightarrow> call_loop a p mt timeout semaphore k w = (Inr None, w)"
  by (subst call_loop.simps) simp

lemma call_loop_trace:
  "semaphore \<noteq> Some 0 \<Longrightarrow> call_loop a p mt timeout semaphore k w = (r, w') \<Longrightarrow>
     \<exists>m. k + m \<le> max k (max_retries a) \<and> call_trace a p mt timeout k w r w' m"
proof (induction a p mt timeout semaphore k w arbitrary: r w' rule: call_loop.induct)
  case (1 a p mt timeout semaphore k w)
  note sem = "1.prems"(1) and run = "1.prems"(2)
  show ?case
  proof (cases "k < max_retries a")
    case False
    with run have "r = Inr None" "w' = w"
      by (simp_all add: call_loop_done)
    with False show ?thesis
      by (intro exI [of _ 0]) (simp add: call_trace_def)
  next
    case True
    let ?o = "outcome_at a p mt timeout (length (requests w))"
    let ?w1 = "w\<lparr>requests := requests w @ [the_request a p mt],
        waits := waits w @ [min (took (create a (the_request a p mt) (length (requests w)))) timeout]\<rparr>"
    have att: "attempt a p mt timeout w = (?o, ?w1)" by (rule attempt_eq)
    note step = call_loop_step [OF True sem, of p mt timeout w, unfolded Let_def]
    show ?thesis
    proof (cases "?o")
      case (Inr reply)
      with run have "r = Inr (Some reply)" "w' = ?w1"
        by (simp_all add: step)
      with Inr True show ?thesis
        by (intro exI [of _ 1]) (simp add: call_trace_def)
    next
      case (Inl e)
      show ?thesis
      proof (cases "k < max_retries a - 1")
        case False
        with "1.prems" Inl have "r = Inl (Raised e)" "w' = ?w1"
          by (simp_all add: step)
        with Inl True False show ?thesis
          by (intro exI [of _ 1]) (simp add: call_trace_def)
      next
        case retry: True
        let ?w2 = "?w1\<lparr>sleeps := sleeps ?w1 @ [2 ^ k]\<rparr>"
        from run Inl retry
        have rec: "call_loop a p mt timeout semaphore (k + 1) ?w2 = (r, w')"
          by (simp add: step)
        have "\<exists>m. k + 1 + m \<le> max (k + 1) (max_retries a)
                \<and> call_trace a p mt timeout (k + 1) ?w2 r w' m"
          using True sem att Inl retry rec
          by (intro "1.IH" [of "(?o, ?w1)" ?o ?w1 e]) simp_all
        then obtain m where le: "k + 1 + m \<le> max (k + 1) (max_retries a)"
          and tr: "call_trace a p mt timeout (k + 1) ?w2 r w' m" by blast
        from tr retry have m1: "1 \<le> m"
          by (auto simp: call_trace_def split: sum.splits option.splits failure.splits)
        have up: "[k..<k + m] = k # [k + 1..<k + m]"
          using m1 by (simp add: upt_conv_Cons)
        have "call_trace a p mt timeout k w r w' (m + 1)"
          unfolding call_trace_def
        proof (intro conjI)
          show "requests w' = requests w @ replicate (m + 1) (the_request a p mt)"
            using tr by (simp add: call_trace_def)
          from tr obtain ws where ws: "waits w' = waits ?w2 @ ws" "length ws = m"
            "\<forall>x\<in>set ws. x \<le> timeout"
            by (auto simp: call_trace_def)
          let ?x = "min (took (create a (the_request a p mt) (length (requests w)))) timeout"
          from ws have "waits w' = waits w @ (?x # ws) \<and> length (?x # ws) = m + 1
              \<and> (\<forall>x\<in>set (?x # ws). x \<le> timeout)"
            by simp
          then show "\<exists>ws. waits w' = waits w @ ws \<and> length ws = m + 1
              \<and> (\<forall>x\<in>set ws. x \<le> timeout)"
            by blast
          show "sleeps w' = sleeps w @ map (\<lambda>i. 2 ^ i) [k..<k + (m + 1) - 1]"
            using tr up by (simp add: call_trace_def)
          show "cache w' = cache w"
            using tr by (simp add: call_trace_def)
          show "\<forall>j. j + 1 < m + 1 \<longrightarrow>
              (\<exists>e. outcome_at a p mt timeout (length (requests w) + j) = Inl e)"
          proof (intro allI impI)
            fix j assume j: "j + 1 < m + 1"
            show "\<exists>e. outcome_at a p mt timeout (length (requests w) + j) = Inl e"
            proof (cases j)
              case 0
              with Inl show ?thesis by simp
            next
              case (Suc i)
              with j have "i + 1 < m" by simp
              with tr have "\<exists>e. outcome_at a p mt timeout (length (requests ?w2) + i) = Inl e"
                by (simp add: call_trace_def)
              with Suc show ?thesis by simp
            qed
          qed
          show "case r of
            Inr (Some text) \<Rightarrow>
              1 \<le> m + 1 \<and> outcome_at a p mt timeout (length (requests w) + (m + 1) - 1) = Inr text
          | Inr None \<Rightarrow> m + 1 = 0 \<and> max_retries a \<le> k
          | Inl (Raised e) \<Rightarrow>
              1 \<le> m + 1 \<and> k + (m + 1) = max_retries a
              \<and> outcome_at a p mt timeout (length (requests w) + (m + 1) - 1) = Inl e
          | Inl NeverReturns \<Rightarrow> False"
            using tr m1 by (auto simp: call_trace_def split: sum.splits option.splits failure.splits)
        qed
        moreover from le retry have "k + (m + 1) \<le> max k (max_retries a)" by simp
        ultimately show ?thesis by blast
      qed
    qed
  qed
qed

text \<open>
  C3: for every prompt, \<^verbatim>\<open>call\<close> makes at most \<^verbatim>\<open>max_retries\<close> requests, all
  with the same prompt; each is awaited for at most the timeout, and one that takes longer
  ends in \<^verbatim>\<open>TimeoutError\<close>; every attempt but the last one made has failed, and
  after the failed attempt number \<open>i\<close> (from 0) the client has slept \<open>2 ^ i\<close> seconds;
  when \<^verbatim>\<open>call\<close> raises, it has made all \<^verbatim>\<open>max_retries\<close> attempts and raises
  the exception of the last one. (The semaphore, if there is one, has a free permit.)
\<close>

theorem call_retries:
  assumes "semaphore \<noteq> Some 0" and "call a p mt timeout semaphore w = (r, w')"
  shows "(\<exists>m\<le>max_retries a.
            requests w' = requests w @ replicate m (the_request a p mt)
          \<and> (\<exists>ws. waits w' = waits w @ ws \<and> length ws = m \<and> (\<forall>x\<in>set ws. x \<le> timeout))
          \<and> sleeps w' = sleeps w @ map (\<lambda>i. 2 ^ i) [0..<m - 1]
          \<and> (\<forall>j. j + 1 < m \<longrightarrow>
                (\<exists>e. outcome_at a p mt timeout (length (requests w) + j) = Inl e))
          \<and> (case r of
                Inr (Some reply) \<Rightarrow>
                  1 \<le> m \<and> outcome_at a p mt timeout (length (requests w) + m - 1) = Inr reply
              | Inr None \<Rightarrow> m = 0 \<and> max_retries a = 0
              | Inl (Raised e) \<Rightarrow>
                  m = max_retries a \<and> 1 \<le> m
                  \<and> outcome_at a p mt timeout (length (requests w) + m - 1) = Inl e
              | Inl NeverReturns \<Rightarrow> False))
       \<and> (\<forall>i. timeout < took (create a (the_request a p mt) i) \<longrightarrow>
              outcome_at a p mt timeout i = Inl TimeoutError)"
proof
  from assms(2) have "call_loop a p mt timeout semaphore 0 w = (r, w')"
    by (simp add: call_def)
  with assms(1) obtain m where le: "0 + m \<le> max 0 (max_retries a)"
    and tr: "call_trace a p mt timeout 0 w r w' m"
    using call_loop_trace by blast
  from le have "m \<le> max_retries a" by simp
  moreover from tr have "requests w' = requests w @ replicate m (the_request a p mt)"
    by (simp add: call_trace_def)
  moreover from tr have "\<exists>ws. waits w' = waits w @ ws \<and> length ws = m \<and> (\<forall>x\<in>set ws. x \<le> timeout)"
    by (simp add: call_trace_def)
  moreover from tr have "sleeps w' = sleeps w @ map (\<lambda>i. 2 ^ i) [0..<m - 1]"
    by (simp add: call_trace_def)
  moreover from tr have "\<forall>j. j + 1 < m \<longrightarrow>
                (\<exists>e. outcome_at a p mt timeout (length (requests w) + j) = Inl e)"
    by (simp add: call_trace_def)
  moreover from tr le have "case r of
                Inr (Some reply) \<Rightarrow>
                  1 \<le> m \<and> outcome_at a p mt timeout (length (requests w) + m - 1) = Inr reply
              | Inr None \<Rightarrow> m = 0 \<and> max_retries a = 0
              | Inl (Raised e) \<Rightarrow>
                  m = max_retries a \<and> 1 \<le> m
                  \<and> outcome_at a p mt timeout (length (requests w) + m - 1) = Inl e
              | Inl NeverReturns \<Rightarrow> False"
    by (auto simp: call_trace_def split: sum.splits option.splits failure.splits)
  ultimately show "\<exists>m\<le>max_retries a.
            requests w' = requests w @ replicate m (the_request a p mt)
          \<and> (\<exists>ws. waits w' = waits w @ ws \<and> length ws = m \<and> (\<forall>x\<in>set ws. x \<le> timeout))
          \<and> sleeps w' = sleeps w @ map (\<lambda>i. 2 ^ i) [0..<m - 1]
          \<and> (\<forall>j. j + 1 < m \<longrightarrow>
                (\<exists>e. outcome_at a p mt timeout (length (requests w) + j) = Inl e))
          \<and> (case r of
                Inr (Some reply) \<Rightarrow>
                  1 \<le> m \<and> outcome_at a p mt timeout (length (requests w) + m - 1) = Inr reply
              | Inr None \<Rightarrow> m = 0 \<and> max_retries a = 0
              | Inl (Raised e) \<Rightarrow>
                  m = max_retries a \<and> 1 \<le> m
                  \<and> outcome_at a p mt timeout (length (requests w) + m - 1) = Inl e
              | Inl NeverReturns \<Rightarrow> False)"
    by blast
  show "\<forall>i. timeout < took (create a (the_request a p mt) i) \<longrightarrow>
              outcome_at a p mt timeout i = Inl TimeoutError"
    by (simp add: outcome_at_def wait_for_def)
qed

lemma failing_run:
  "fst (call failing_api ''p'' 1024 default_timeout None empty_world) = Inl (Raised (ServiceError ''boom''))"
  "requests (snd (call failing_api ''p'' 1024 default_timeout None empty_world))
     = replicate 3 (the_request failing_api ''p'' 1024)"
  "sleeps (snd (call failing_api ''p'' 1024 default_timeout None empty_world)) = [1, 2]"
  "waits (snd (call failing_api ''p'' 1024 default_timeout None empty_world)) = [60, 1, 2]"
  by code_simp+

theorem call_retries_witness:
  "(None :: nat option) \<noteq> Some 0
   \<and> fst (call failing_api ''p'' 1024 default_timeout None empty_world)
       = Inl (Raised (ServiceError ''boom''))
   \<and> outcome_at failing_api ''p'' 1024 default_timeout 2 = Inl (ServiceError ''boom'')"
proof -
  let ?run = "call failing_api ''p'' 1024 default_timeout None empty_world"
  have r: "fst ?run = Inl (Raised (ServiceError ''boom''))"
    by (rule failing_run(1))
  have "(None :: nat option) \<noteq> Some 0" by simp
  moreover have "?run = (fst ?run, snd ?run)" by simp
  ultimately obtain m where "m \<le> max_retries failing_api"
    and "case fst ?run of
            Inr (Some reply) \<Rightarrow>
              1 \<le> m \<and> outcome_at failing_api ''p'' 1024 default_timeout
                (length (requests empty_world) + m - 1) = Inr reply
          | Inr None \<Rightarrow> m = 0 \<and> max_retries failing_api = 0
          | Inl (Raised e) \<Rightarrow>
              m = max_retries failing_api \<and> 1 \<le> m
              \<and> outcome_at failing_api ''p'' 1024 default_timeout
                (length (requests empty_world) + m - 1) = Inl e
          | Inl NeverReturns \<Rightarrow> False"
    using call_retries [of None failing_api "''p''" 1024 default_timeout empty_world
      "fst ?run" "snd ?run"]
    by blast
  with r have "outcome_at failing_api ''p'' 1024 default_timeout
      (length (requests empty_world) + max_retries failing_api - 1) = Inl (ServiceError ''boom'')"
    by auto
  then have "outcome_at failing_api ''p'' 1024 default_timeout 2 = Inl (ServiceError ''boom'')"
    by (simp add: failing_api_def empty_world_def)
  with r show ?thesis by simp
qed

subsection \<open>Cached analyses\<close>

lemma all_strs_map: "all_strs (map JString xs) = Some xs"
  by (induction xs) simp_all

lemma json_analysis_inverse: "json_analysis (analysis_json a) = Inr a"
  by (simp add: json_analysis_def analysis_json_def field_str_def field_strs_def all_strs_map)

lemma wf_analysis_json: "wf_json (analysis_json a)"
  by (simp add: analysis_json_def list_all_iff)

lemma compact_roundtrip: "compact_validate (compact_dump a) = Inr a"
  by (simp add: compact_validate_def compact_dump_def json_loads_dumps wf_analysis_json
      json_analysis_inverse)

text \<open>
  C7: for every date and ticket id for which a decodable analysis is cached, extracting
  that ticket again returns the cached analysis and leaves the state as it was: the
  service receives no request.
\<close>

theorem extract_ticket_cached:
  assumes "cache w (dated_path tid d) = Some cached_text"
    and "analysis_validate_json e cached_text = Inr a"
  shows "extract_ticket e tid ticket_content d semaphore w = (Inr a, w)
       \<and> requests (snd (extract_ticket e tid ticket_content d semaphore w)) = requests w"
  using assms by (simp add: extract_ticket_def exists_dated_def get_dated_def)

theorem extract_ticket_cached_witness:
  "cache cached_world (dated_path ''T1'' march_5) = Some (compact_dump analysis_T1)
   \<and> analysis_validate_json stub_env (compact_dump analysis_T1) = Inr analysis_T1
   \<and> extract_ticket stub_env ''T1'' ''It crashed'' march_5 (Some 10) cached_world
       = (Inr analysis_T1, cached_world)"
proof -
  have 1: "cache cached_world (dated_path ''T1'' march_5) = Some (compact_dump analysis_T1)"
    by (simp add: cached_world_def)
  have 2: "analysis_validate_json stub_env (compact_dump analysis_T1) = Inr analysis_T1"
    by (simp add: stub_env_def compact_roundtrip)
  from extract_ticket_cached [OF 1 2, of "''It crashed''" "Some 10"] 1 2 show ?thesis
    by simp
qed

subsection \<open>Batch extraction\<close>

lemma call_loop_keeps_cache:
  "call_loop a p mt timeout semaphore k w = (r, w') \<Longrightarrow> cache w' = cache w"
proof (induction a p mt timeout semaphore k w arbitrary: r w' rule: call_loop.induct)
  case (1 a p mt timeout semaphore k w)
  show ?case
  proof (cases "k < max_retries a \<and> semaphore \<noteq> Some 0")
    case False
    with "1.prems" show ?thesis
      by (subst (asm) call_loop.simps) (auto split: if_splits)
  next
    case True
    then have k: "k < max_retries a" and sem: "semaphore \<noteq> Some 0" by simp_all
    note step = call_loop_step [OF k sem, of p mt timeout w, unfolded Let_def]
    let ?o = "outcome_at a p mt timeout (length (requests w))"
    let ?w1 = "w\<lparr>requests := requests w @ [the_request a p mt],
        waits := waits w @ [min (took (create a (the_request a p mt) (length (requests w)))) timeout]\<rparr>"
    have att: "attempt a p mt timeout w = (?o, ?w1)" by (rule attempt_eq)
    show ?thesis
    proof (cases "?o")
      case (Inr reply)
      with "1.prems" show ?thesis by (auto simp: step)
    next
      case (Inl err)
      show ?thesis
      proof (cases "k < max_retries a - 1")
        case False
        with "1.prems" Inl show ?thesis by (auto simp: step)
      next
        case retry: True
        let ?w2 = "?w1\<lparr>sleeps := sleeps ?w1 @ [2 ^ k]\<rparr>"
        from "1.prems" Inl retry
        have rec: "call_loop a p mt timeout semaphore (k + 1) ?w2 = (r, w')"
          by (simp add: step)
        have "cache w' = cache ?w2"
          using k sem att Inl retry rec
          by (intro "1.IH" [of "(?o, ?w1)" ?o ?w1 err]) simp_all
        then show ?thesis by simp
      qed
    qed
  qed
qed

lemma call_keeps_cache: "cache (snd (call a p mt timeout semaphore w)) = cache w"
  using call_loop_keeps_cache [of a p mt timeout semaphore 0 w] 
  by (cases "call_loop a p mt timeout semaphore 0 w") (simp add: call_def)

lemma call_returns:
  "semaphore \<noteq> Some 0 \<Longrightarrow> fst (call a p mt timeout semaphore w) \<noteq> Inl NeverReturns"
proof
  assume sem: "semaphore \<noteq> Some 0" and nr: "fst (call a p mt timeout semaphore w) = Inl NeverReturns"
  obtain r w' where run: "call_loop a p mt timeout semaphore 0 w = (r, w')"
    by (cases "call_loop a p mt timeout semaphore 0 w")
  with nr have "r = Inl NeverReturns" by (simp add: call_def)
  moreover from call_loop_trace [OF sem run] obtain m where "call_trace a p mt timeout 0 w r w' m"
    by blast
  ultimately show False by (simp add: call_trace_def)
qed

lemma dated_path_key: "dated_path tid d = dated_path tid' d' \<Longrightarrow> tid = tid'"
  by (simp add: dated_path_def)

lemma ids_match_save:
  assumes "ids_match e files" and "dump_keeps_id e" and "ticket_id a = tid"
  shows "ids_match e (save_dated files tid d a (analysis_dump_json e))"
  unfolding ids_match_def
proof (intro allI impI)
  fix tid' d' cached_text a'
  assume look: "save_dated files tid d a (analysis_dump_json e) (dated_path tid' d') = Some cached_text"
    and dec: "analysis_validate_json e cached_text = Inr a'"
  show "ticket_id a' = tid'"
  proof (cases "dated_path tid' d' = dated_path tid d")
    case True
    with look have "cached_text = analysis_dump_json e a" by (simp add: save_dated_def)
    with dec assms(2) have "ticket_id a' = ticket_id a" by (auto simp: dump_keeps_id_def)
    with assms(3) dated_path_key [OF True] show ?thesis by simp
  next
    case False
    with look have "files (dated_path tid' d') = Some cached_text" by (simp add: save_dated_def)
    with dec assms(1) show ?thesis by (auto simp: ids_match_def)
  qed
qed

lemma new_TicketAnalysis_id: "new_TicketAnalysis tid data = Inr a \<Longrightarrow> ticket_id a = tid"
  by (auto simp: new_TicketAnalysis_def split: json.splits if_splits option.splits)

lemma ids_match_save_new:
  "ids_match e files \<Longrightarrow> dump_keeps_id e \<Longrightarrow> new_TicketAnalysis tid data = Inr a \<Longrightarrow>
     ids_match e (save_dated files tid d a (analysis_dump_json e))"
  by (rule ids_match_save) (simp_all add: new_TicketAnalysis_id)

lemma extract_fresh_sound:
  assumes "semaphore \<noteq> Some 0" and "ids_match e (cache w)" and "dump_keeps_id e"
    and "extract_fresh e tid ticket_content d semaphore w = (r, w')"
  shows "r \<noteq> Inl NeverReturns \<and> ids_match e (cache w') \<and> (\<forall>a. r = Inr a \<longrightarrow> ticket_id a = tid)"
proof -
  obtain r1 w1 where c: "call (api e) (EXTRACT_PROMPT_format ticket_content) 1024 default_timeout semaphore w = (r1, w1)"
    by (cases "call (api e) (EXTRACT_PROMPT_format ticket_content) 1024 default_timeout semaphore w")
  have r1: "r1 \<noteq> Inl NeverReturns"
    using call_returns [OF assms(1), of "api e" "EXTRACT_PROMPT_format ticket_content" 1024 default_timeout w] c
    by simp
  have c1: "cache w1 = cache w"
    using call_keeps_cache [of "api e" "EXTRACT_PROMPT_format ticket_content" 1024 default_timeout semaphore w] c
    by simp
  show ?thesis
    using assms(4) r1 c1 assms(2)
    by (auto simp: extract_fresh_def c ids_match_save_new [OF _ assms(3)]
        dest: new_TicketAnalysis_id split: sum.splits option.splits failure.splits)
qed

lemma extract_ticket_sound:
  assumes "semaphore \<noteq> Some 0" and "ids_match e (cache w)" and "dump_keeps_id e"
    and "extract_ticket e tid ticket_content d semaphore w = (r, w')"
  shows "r \<noteq> Inl NeverReturns \<and> ids_match e (cache w') \<and> (\<forall>a. r = Inr a \<longrightarrow> ticket_id a = tid)"
proof (cases "extract_ticket e tid ticket_content d semaphore w
               = extract_fresh e tid ticket_content d semaphore w")
  case True
  with assms(4) have "extract_fresh e tid ticket_content d semaphore w = (r, w')" by simp
  then show ?thesis by (rule extract_fresh_sound [OF assms(1-3)])
next
  case False
  then show ?thesis
    using assms(2,4)
    by (auto simp: extract_ticket_def exists_dated_def get_dated_def ids_match_def
        split: if_splits option.splits sum.splits)
qed

lemma extract_with_progress_sound:
  assumes "semaphore \<noteq> Some 0" and "ids_match e (cache w)" and "dump_keeps_id e"
  shows "\<exists>a w'. extract_with_progress e semaphore t completed w = (Inr a, completed + 1, w')
           \<and> ticket_id a = t_id t \<and> ids_match e (cache w')
           \<and> result_for e t (fst (extract_ticket e (t_id t) (t_content t) (ticket_date_of e t)
                  semaphore w)) = Some a"
proof -
  obtain r w' where run: "extract_ticket e (t_id t) (t_content t) (ticket_date_of e t) semaphore w = (r, w')"
    by (cases "extract_ticket e (t_id t) (t_content t) (ticket_date_of e t) semaphore w")
  from extract_ticket_sound [OF assms run]
  have nr: "r \<noteq> Inl NeverReturns" and ok: "ids_match e (cache w')"
    and tid: "\<forall>a. r = Inr a \<longrightarrow> ticket_id a = t_id t" by simp_all
  show ?thesis
  proof (cases r)
    case (Inr a)
    with run tid ok show ?thesis
      by (simp add: extract_with_progress_def result_for_def)
  next
    case (Inl f)
    with nr obtain err where "f = Raised err" by (cases f) auto
    with Inl run ok show ?thesis
      by (simp add: extract_with_progress_def result_for_def placeholder_def)
  qed
qed

lemma extract_with_progress_world:
  "snd (snd (extract_with_progress e semaphore t completed w))
     = snd (snd (extract_with_progress e semaphore t 0 w))"
  by (simp add: extract_with_progress_def Let_def split: prod.splits sum.splits failure.splits)

lemma gather_extract_sound:
  assumes "semaphore \<noteq> Some 0" and "dump_keeps_id e"
  shows "ids_match e (cache w) \<Longrightarrow>
     \<exists>results w'. gather_extract e semaphore tickets completed w
         = (Inr results, completed + length tickets, w')
       \<and> length results = length tickets
       \<and> ids_match e (cache w')
       \<and> (\<forall>i<length tickets.
             ticket_id (results ! i) = t_id (tickets ! i)
           \<and> result_for e (tickets ! i)
                 (fst (extract_ticket e (t_id (tickets ! i)) (t_content (tickets ! i))
                        (ticket_date_of e (tickets ! i)) semaphore
                        (world_before e semaphore tickets i w)))
               = Some (results ! i))"
proof (induction tickets arbitrary: completed w)
  case Nil
  then show ?case by simp
next
  case (Cons t ts)
  from extract_with_progress_sound [OF assms(1) Cons.prems assms(2), of t completed]
  obtain a w1 where step: "extract_with_progress e semaphore t completed w = (Inr a, completed + 1, w1)"
    and a: "ticket_id a = t_id t" and ok1: "ids_match e (cache w1)"
    and ra: "result_for e t (fst (extract_ticket e (t_id t) (t_content t) (ticket_date_of e t)
                  semaphore w)) = Some a"
    by blast
  from Cons.IH [OF ok1, of "completed + 1"]
  obtain rest w2 where run: "gather_extract e semaphore ts (completed + 1) w1
         = (Inr rest, completed + 1 + length ts, w2)"
    and len: "length rest = length ts" and ok2: "ids_match e (cache w2)"
    and each: "\<forall>i<length ts.
             ticket_id (rest ! i) = t_id (ts ! i)
           \<and> result_for e (ts ! i)
                 (fst (extract_ticket e (t_id (ts ! i)) (t_content (ts ! i))
                        (ticket_date_of e (ts ! i)) semaphore
                        (world_before e semaphore ts i w1)))
               = Some (rest ! i)"
    by blast
  have w1: "snd (snd (extract_with_progress e semaphore t 0 w)) = w1"
    using extract_with_progress_world [of e semaphore t completed w] step by simp
  have "\<forall>i<length (t # ts).
             ticket_id ((a # rest) ! i) = t_id ((t # ts) ! i)
           \<and> result_for e ((t # ts) ! i)
                 (fst (extract_ticket e (t_id ((t # ts) ! i)) (t_content ((t # ts) ! i))
                        (ticket_date_of e ((t # ts) ! i)) semaphore
                        (world_before e semaphore (t # ts) i w)))
               = Some ((a # rest) ! i)"
  proof (intro allI impI)
    fix i assume "i < length (t # ts)"
    then show "ticket_id ((a # rest) ! i) = t_id ((t # ts) ! i)
           \<and> result_for e ((t # ts) ! i)
                 (fst (extract_ticket e (t_id ((t # ts) ! i)) (t_content ((t # ts) ! i))
                        (ticket_date_of e ((t # ts) ! i)) semaphore
                        (world_before e semaphore (t # ts) i w)))
               = Some ((a # rest) ! i)"
      using a ra each w1 by (cases i) simp_all
  qed
  with step run len ok2 show ?case by simp
qed

text \<open>
  C1: for every list of input tickets (and a gate with at least one permit), the batch
  returns a list of analyses as long as the input, in input order: the analysis at index
  \<open>i\<close> has the id of the ticket at index \<open>i\<close>, and it is what the extraction of that
  ticket returned or, when that extraction raised an exception, the placeholder with
  category \<^verbatim>\<open>error\<close> built from the exception; no ticket's failure ends the batch.
  The cache is as the program leaves it (\<open>ids_match\<close>, which the batch keeps) and the
  library's codec gives back the id it was given (\<open>dump_keeps_id\<close>).
\<close>

theorem extract_batch_order:
  assumes "0 < max_concurrent" and "ids_match e (cache w)" and "dump_keeps_id e"
  shows "\<exists>results w'.
           extract_batch e tickets max_concurrent w = (Inr results, w')
         \<and> length results = length tickets
         \<and> ids_match e (cache w')
         \<and> (\<forall>i<length tickets.
               ticket_id (results ! i) = t_id (tickets ! i)
             \<and> result_for e (tickets ! i)
                   (fst (extract_ticket e (t_id (tickets ! i)) (t_content (tickets ! i))
                          (ticket_date_of e (tickets ! i)) (Some (nat max_concurrent))
                          (world_before e (Some (nat max_concurrent)) tickets i w)))
                 = Some (results ! i)
             \<and> (\<forall>err. fst (extract_ticket e (t_id (tickets ! i)) (t_content (tickets ! i))
                          (ticket_date_of e (tickets ! i)) (Some (nat max_concurrent))
                          (world_before e (Some (nat max_concurrent)) tickets i w)) = Inl (Raised err)
                   \<longrightarrow> category (results ! i) = ''error''))"
proof -
  from assms(1) have sem: "Some (nat max_concurrent) \<noteq> Some 0" by simp
  from gather_extract_sound [OF sem assms(3) assms(2), of tickets 0]
  obtain results w' where run: "gather_extract e (Some (nat max_concurrent)) tickets 0 w
         = (Inr results, 0 + length tickets, w')"
    and len: "length results = length tickets" and ok: "ids_match e (cache w')"
    and each: "\<forall>i<length tickets.
             ticket_id (results ! i) = t_id (tickets ! i)
           \<and> result_for e (tickets ! i)
                 (fst (extract_ticket e (t_id (tickets ! i)) (t_content (tickets ! i))
                        (ticket_date_of e (tickets ! i)) (Some (nat max_concurrent))
                        (world_before e (Some (nat max_concurrent)) tickets i w)))
               = Some (results ! i)"
    by blast
  from assms(1) run have "extract_batch e tickets max_concurrent w = (Inr results, w')"
    by (simp add: extract_batch_def)
  moreover from each have "\<forall>i<length tickets.
               ticket_id (results ! i) = t_id (tickets ! i)
             \<and> result_for e (tickets ! i)
                   (fst (extract_ticket e (t_id (tickets ! i)) (t_content (tickets ! i))
                          (ticket_date_of e (tickets ! i)) (Some (nat max_concurrent))
                          (world_before e (Some (nat max_concurrent)) tickets i w)))
                 = Some (results ! i)
             \<and> (\<forall>err. fst (extract_ticket e (t_id (tickets ! i)) (t_content (tickets ! i))
                          (ticket_date_of e (tickets ! i)) (Some (nat max_concurrent))
                          (world_before e (Some (nat max_concurrent)) tickets i w)) = Inl (Raised err)
                   \<longrightarrow> category (results ! i) = ''error'')"
  proof (intro allI impI conjI)
    fix i err
    assume i: "i < length tickets"
    let ?r = "fst (extract_ticket e (t_id (tickets ! i)) (t_content (tickets ! i))
                          (ticket_date_of e (tickets ! i)) (Some (nat max_concurrent))
                          (world_before e (Some (nat max_concurrent)) tickets i w))"
    from each i show "ticket_id (results ! i) = t_id (tickets ! i)" by simp
    from each i show res: "result_for e (tickets ! i) ?r = Some (results ! i)" by simp
    assume "?r = Inl (Raised err)"
    with res have "results ! i = placeholder e (t_id (tickets ! i)) err"
      by (simp add: result_for_def)
    then show "category (results ! i) = ''error''" by (simp add: placeholder_def)
  qed
  ultimately show ?thesis using len ok by blast
qed

lemma three_tickets_run:
  "map_sum id (map category) (fst (extract_batch batch_env three_tickets 2 empty_world))
     = Inr [''bug'', ''error'', ''bug'']"
  by code_simp

theorem extract_batch_order_witness:
  "0 < (2 :: int) \<and> ids_match batch_env (cache empty_world) \<and> dump_keeps_id batch_env
   \<and> (\<exists>results w'. extract_batch batch_env three_tickets 2 empty_world = (Inr results, w')
         \<and> length results = 3
         \<and> map ticket_id results = [''T1'', ''T2'', ''T3'']
         \<and> map category results = [''bug'', ''error'', ''bug''])"
proof -
  have ids: "ids_match batch_env (cache empty_world)"
    by (simp add: ids_match_def empty_world_def)
  have codec: "dump_keeps_id batch_env"
    by (simp add: dump_keeps_id_def batch_env_def stub_env_def compact_roundtrip)
  from extract_batch_order [of 2 batch_env empty_world three_tickets, OF _ ids codec]
  obtain results w' where run: "extract_batch batch_env three_tickets 2 empty_world = (Inr results, w')"
    and len: "length results = length three_tickets"
    and each: "\<forall>i<length three_tickets. ticket_id (results ! i) = t_id (three_tickets ! i)"
    by auto
  from len have len3: "length results = 3" by (simp add: three_tickets_def)
  have "map ticket_id results = map t_id three_tickets"
    using len each by (intro nth_equalityI) simp_all
  then have ids3: "map ticket_id results = [''T1'', ''T2'', ''T3'']"
    by (simp add: three_tickets_def)
  from three_tickets_run run have "map category results = [''bug'', ''error'', ''bug'']"
    by simp
  with run len3 ids3 ids codec show ?thesis by simp
qed

subsection \<open>The previous day's context in the summary prompt\<close>

lemma contains_self: "contains (p @ ys) p"
  by (cases p; cases ys) (simp_all add: startswith_def)

lemma contains_append: "contains (xs @ p @ ys) p"
  by (induction xs) (simp_all add: contains_self)

lemma summarize_prompt_context:
  "contains (summarize_prompt e analyses prev) (context_line prev)"
proof -
  let ?categories = "Counter (map category analyses)"
  let ?top = "most_common 10 (Counter (concat (map themes analyses)))"
  let ?xs = "''Summarize today'' @ [CHR 0x27] @ ''s support tickets.'' @ [CHR 0x0A, CHR 0x0A] @
     ''Stats:'' @ [CHR 0x0A] @ ''- Total tickets: '' @ nat_digits (length analyses) @ [CHR 0x0A] @
     ''- Categories: '' @ repr e (counts_json ?categories) @ [CHR 0x0A] @ ''- Top themes: ''
     @ repr e (counts_json (dict ?top)) @
     [CHR 0x0A, CHR 0x0A] @ ''Sample tickets:'' @ [CHR 0x0A]
     @ join [CHR 0x0A] (map sample_line (take 15 analyses)) @ [CHR 0x0A, CHR 0x0A]"
  let ?ys = "[CHR 0x0A] @
     ''Generate JSON with:'' @ [CHR 0x0A] @ ''- key_themes: list of 5 most important themes'' @
     [CHR 0x0A] @ ''- trend_analysis: how this compares to yesterday'' @ [CHR 0x0A] @
     ''- critical_issues: anything requiring immediate attention'' @ [CHR 0x0A, CHR 0x0A] @
     ''Return ONLY valid JSON.''"
  have "summarize_prompt e analyses prev = ?xs @ context_line prev @ ?ys"
    by (simp add: summarize_prompt_def SUMMARIZE_PROMPT_format_def context_line_def Let_def)
  then show ?thesis by (simp only: contains_append)
qed

lemma call_requests:
  assumes "call a p mt timeout None w = (r, w')"
  shows "\<exists>m. requests w' = requests w @ replicate m (the_request a p mt)
           \<and> (0 < max_retries a \<longrightarrow> 0 < m)"
proof -
  from assms have "call_loop a p mt timeout None 0 w = (r, w')" by (simp add: call_def)
  then obtain m where tr: "call_trace a p mt timeout 0 w r w' m"
    using call_loop_trace [of None a p mt timeout 0 w r w'] by auto
  then have "requests w' = requests w @ replicate m (the_request a p mt)"
    by (simp add: call_trace_def)
  moreover from tr have "0 < max_retries a \<longrightarrow> 0 < m"
    by (auto simp: call_trace_def split: sum.splits option.splits failure.splits)
  ultimately show ?thesis by (intro exI [of _ m] conjI)
qed

lemma summarize_fresh_sent:
  assumes "previous_context e (cache w) target_date = Inr prev"
    and "summarize_fresh e target_date analyses w = (r, w')"
  shows "\<exists>m. requests w' = requests w
              @ replicate m (the_request (api e) (summarize_prompt e analyses prev) 2048)
        \<and> (0 < max_retries (api e) \<longrightarrow> 0 < m)"
proof -
  obtain r1 w1 where c: "call (api e) (summarize_prompt e analyses prev) 2048 default_timeout None w = (r1, w1)"
    by (cases "call (api e) (summarize_prompt e analyses prev) 2048 default_timeout None w")
  from assms c have "requests w' = requests w1"
    by (auto simp: summarize_fresh_def split: sum.splits option.splits)
  with call_requests [OF c] show ?thesis by simp
qed

lemma summarize_day_sent:
  assumes "previous_context e (cache w) target_date = Inr prev"
    and "summarize_day e target_date analyses w = (r, w')"
  shows "sent_with e target_date analyses prev w w'"
proof (cases "summarize_day e target_date analyses w = summarize_fresh e target_date analyses w")
  case True
  with assms(2) have "summarize_fresh e target_date analyses w = (r, w')" by simp
  from summarize_fresh_sent [OF assms(1) this] show ?thesis
    by (auto simp: sent_with_def)
next
  case False
  then have ex: "exists (cache w) (isoformat target_date)"
    by (auto simp: summarize_day_def Let_def split: if_splits)
  from False assms(2) have "w' = w"
    by (auto simp: summarize_day_def Let_def split: if_splits sum.splits option.splits)
  with ex show ?thesis
    by (auto simp: sent_with_def intro: exI [of _ 0])
qed

lemma previous_context_cached:
  assumes "minus_one_day target_date = Inr yesterday"
    and "files (flat_path (isoformat yesterday)) = Some cached_text"
    and "summary_validate_json e cached_text = Inr s"
  shows "previous_context e files target_date = Inr (trend_analysis s)"
  using assms by (simp add: previous_context_def exists_def get_def)

lemma previous_context_absent:
  assumes "minus_one_day target_date = Inr yesterday"
    and "files (flat_path (isoformat yesterday)) = None"
  shows "previous_context e files target_date = Inr no_previous_summary"
  using assms by (simp add: previous_context_def exists_def)

text \<open>
  C8: for every aggregation call for a date whose day before is \<open>yesterday\<close>: if the
  summary of \<open>yesterday\<close> is cached and decodes to one whose trend analysis is
  \<^verbatim>\<open>stable\<close>, every prompt the call sends to the service is the one built with
  \<^verbatim>\<open>stable\<close> as the previous summary; if no summary of \<open>yesterday\<close> is cached, it
  is the one built with \<^verbatim>\<open>No previous summary\<close>; a prompt is sent when the date itself
  is not cached (and the client makes attempts); and the prompt built with a context holds
  the line \<^verbatim>\<open>Yesterday's summary:\<close> followed by that context.
\<close>

theorem summarize_day_context:
  assumes "minus_one_day target_date = Inr yesterday"
    and "summarize_day e target_date analyses w = (r, w')"
  shows "(cache w (flat_path (isoformat yesterday)) = Some cached_text
            \<and> summary_validate_json e cached_text = Inr s \<and> trend_analysis s = ''stable''
          \<longrightarrow> sent_with e target_date analyses ''stable'' w w')
       \<and> (cache w (flat_path (isoformat yesterday)) = None
          \<longrightarrow> sent_with e target_date analyses no_previous_summary w w')
       \<and> contains (summarize_prompt e analyses prev) (context_line prev)"
proof (intro conjI impI)
  assume c: "cache w (flat_path (isoformat yesterday)) = Some cached_text
            \<and> summary_validate_json e cached_text = Inr s \<and> trend_analysis s = ''stable''"
  then have "previous_context e (cache w) target_date = Inr ''stable''"
    using previous_context_cached [OF assms(1), of "cache w" cached_text e s] by simp
  then show "sent_with e target_date analyses ''stable'' w w'"
    using assms(2) by (rule summarize_day_sent)
next
  assume "cache w (flat_path (isoformat yesterday)) = None"
  then have "previous_context e (cache w) target_date = Inr no_previous_summary"
    by (rule previous_context_absent [OF assms(1)])
  then show "sent_with e target_date analyses no_previous_summary w w'"
    using assms(2) by (rule summarize_day_sent)
next
  show "contains (summarize_prompt e analyses prev) (context_line prev)"
    by (rule summarize_prompt_context)
qed

theorem summarize_day_context_witness:
  "minus_one_day march_5 = Inr \<lparr>year = 2024, month = 3, day = 4\<rparr>
   \<and> cache march_4_cached (flat_path (isoformat \<lparr>year = 2024, month = 3, day = 4\<rparr>))
       = Some ''stable summary''
   \<and> sent_with stub_env march_5 [analysis_T1] ''stable'' march_4_cached
        (snd (summarize_day stub_env march_5 [analysis_T1] march_4_cached))
   \<and> sent_with stub_env march_5 [analysis_T1] no_previous_summary empty_world
        (snd (summarize_day stub_env march_5 [analysis_T1] empty_world))"
proof -
  let ?y = "\<lparr>year = 2024, month = 3, day = 4\<rparr>"
  have y: "minus_one_day march_5 = Inr ?y"
    by (simp add: minus_one_day_def march_5_def)
  have iso: "isoformat ?y = ''2024-03-04''"
    by code_simp
  have c: "cache march_4_cached (flat_path (isoformat ?y)) = Some ''stable summary''"
    by (simp add: iso march_4_cached_def)
  have v: "summary_validate_json stub_env ''stable summary''
      = Inr \<lparr>date = \<lparr>year = 2024, month = 3, day = 4\<rparr>, ticket_count = 2,
                   key_themes = [], trend_analysis = ''stable'', critical_issues = []\<rparr>"
    by (simp add: stub_env_def)
  have n: "cache empty_world (flat_path (isoformat ?y)) = None"
    by (simp add: empty_world_def)
  have 1: "sent_with stub_env march_5 [analysis_T1] ''stable'' march_4_cached
        (snd (summarize_day stub_env march_5 [analysis_T1] march_4_cached))"
    using summarize_day_context [OF y, where e = stub_env and analyses = "[analysis_T1]"
        and w = march_4_cached
        and r = "fst (summarize_day stub_env march_5 [analysis_T1] march_4_cached)"
        and w' = "snd (summarize_day stub_env march_5 [analysis_T1] march_4_cached)"
        and cached_text = "''stable summary''"
        and s = "\<lparr>date = \<lparr>year = 2024, month = 3, day = 4\<rparr>, ticket_count = 2,
                   key_themes = [], trend_analysis = ''stable'', critical_issues = []\<rparr>"] c v
    by simp
  have 2: "sent_with stub_env march_5 [analysis_T1] no_previous_summary empty_world
        (snd (summarize_day stub_env march_5 [analysis_T1] empty_world))"
    using summarize_day_context [OF y, where e = stub_env and analyses = "[analysis_T1]"
        and w = empty_world
        and r = "fst (summarize_day stub_env march_5 [analysis_T1] empty_world)"
        and w' = "snd (summarize_day stub_env march_5 [analysis_T1] empty_world)"] n
    by simp
  from y c 1 2 show ?thesis by simp
qed

end
